theory Spec2Isabelle
  imports Main "HOL-Library.Sublist"
begin

section \<open>Python values and the object store\<close>

text \<open>
  The dialog of \<^verbatim>\<open>select_items.py\<close> receives a Python list of dictionaries. Lists and
  dictionaries are mutable objects that the caller keeps references to, so both live in a
  store and are named by their position in it. The values kept inside a dictionary
  (strings, \<^verbatim>\<open>None\<close>, integers) are immutable and are modelled as plain values.
\<close>

datatype pyval = PyNone | PyStr string | PyInt int

text \<open>Python truthiness, as used by \<^verbatim>\<open>if not d['name']\<close>.\<close>

fun truthy :: "pyval \<Rightarrow> bool" where
  "truthy PyNone = False"
| "truthy (PyStr s) = (s \<noteq> [])"
| "truthy (PyInt i) = (i \<noteq> 0)"

text \<open>
  The exceptions the code can raise. \<open>DanglingRef\<close> is not a Python exception: it marks a
  reference that names no object of the store, which no Python program can hold.
\<close>

datatype py_error = KeyError | IndexError | TypeError | DanglingRef

type_synonym pydict = "string \<rightharpoonup> pyval"
type_synonym dref = nat
type_synonym lref = nat

text \<open>
  \<^verbatim>\<open>sys.excepthook\<close> is one process-wide slot. \<open>ExceptionHandler\<close> stands for the
  module's function \<^verbatim>\<open>exception_handler\<close>.
\<close>

datatype hook = DefaultHook | OtherHook nat | ExceptionHandler

text \<open>What the user gets to see: message boxes, in the order they were opened.\<close>

datatype ui_event = MessageBox string string string | CriticalBox string string

record world =
  dict_store :: "pydict list"
  list_store :: "dref list list"
  excepthook :: hook
  shown :: "ui_event list"
  printed :: "string list"
  logged :: "string list"

definition dict_at :: "world \<Rightarrow> dref \<Rightarrow> pydict option" where
  "dict_at w r = (if r < length (dict_store w) then Some (dict_store w ! r) else None)"

definition list_at :: "world \<Rightarrow> lref \<Rightarrow> dref list option" where
  "list_at w a = (if a < length (list_store w) then Some (list_store w ! a) else None)"

text \<open>Creating a list object (\<^verbatim>\<open>[]\<close>, \<^verbatim>\<open>copy.copy(xs)\<close>) takes the next free position.\<close>

definition new_list :: "world \<Rightarrow> dref list \<Rightarrow> world \<times> lref" where
  "new_list w xs = (w\<lparr>list_store := list_store w @ [xs]\<rparr>, length (list_store w))"

text \<open>\<^verbatim>\<open>xs.append(d)\<close> changes the list object in place.\<close>

definition list_append :: "world \<Rightarrow> lref \<Rightarrow> dref \<Rightarrow> world" where
  "list_append w a d =
     (case list_at w a of
        None \<Rightarrow> w
      | Some xs \<Rightarrow> w\<lparr>list_store := (list_store w)[a := xs @ [d]]\<rparr>)"

text \<open>
  \<^verbatim>\<open>xs[i]\<close>: an index below zero counts from the end of the list, and an index outside
  the list raises \<^verbatim>\<open>IndexError\<close>.
\<close>

definition py_index :: "'a list \<Rightarrow> int \<Rightarrow> py_error + 'a" where
  "py_index xs i =
     (if 0 \<le> i \<and> i < int (length xs) then Inr (xs ! nat i)
      else if i < 0 \<and> - int (length xs) \<le> i then Inr (xs ! nat (int (length xs) + i))
      else Inl IndexError)"

text \<open>
  Modelled from the spec: \<^verbatim>\<open>helpers.Message\<close>, which is not part of the source file. The
  spec calls it a non-fatal user-facing warning: the box is shown and the caller goes on.
\<close>

definition Message :: "world \<Rightarrow> string \<Rightarrow> string \<Rightarrow> string \<Rightarrow> world" where
  "Message w title_text body icon = w\<lparr>shown := shown w @ [MessageBox title_text body icon]\<rparr>"

section \<open>The uncaught-exception handler\<close>

fun join :: "string \<Rightarrow> string list \<Rightarrow> string" where
  "join sep [] = []"
| "join sep [x] = x"
| "join sep (x # y # ys) = x @ sep @ join sep (y # ys)"

text \<open>
  \<^verbatim>\<open>exception_handler(exception_type, value, tb_obj)\<close>. The arguments of the model are
  what the handler reads from its own: \<^verbatim>\<open>exception_type.__name__\<close>, \<^verbatim>\<open>str(value)\<close> and
  the lines of \<^verbatim>\<open>traceback.format_tb(tb_obj)\<close>. \<open>tr\<close> is the translation function
  \<^verbatim>\<open>_\<close> that the application installs.
\<close>

definition traceback_text :: "string \<Rightarrow> string \<Rightarrow> string list \<Rightarrow> string" where
  "traceback_text type_name value_str tb_lines =
     ''Traceback (most recent call last):'' @ [CHR 0x0A] @ join [CHR 0x0A] tb_lines
       @ [CHR 0x0A] @ type_name @ '': '' @ value_str"

definition exception_handler ::
  "(string \<Rightarrow> string) \<Rightarrow> world \<Rightarrow> string \<Rightarrow> string \<Rightarrow> string list \<Rightarrow> world" where
  "exception_handler tr w type_name value_str tb_lines =
     (let text = traceback_text type_name value_str tb_lines
      in w\<lparr>printed := printed w @ [text],
           logged := logged w @ [tr ''Uncaught exception: '' @ text],
           shown := shown w @ [CriticalBox (tr ''Uncaught Exception'') text]\<rparr>)"

section \<open>The list adapter\<close>

datatype list_model = ListModel (model_list: lref)

definition ListModel_init :: "world \<Rightarrow> lref \<Rightarrow> world \<times> list_model" where
  "ListModel_init w data_list = (w\<lparr>excepthook := ExceptionHandler\<rparr>, ListModel data_list)"

definition rowCount :: "world \<Rightarrow> list_model \<Rightarrow> py_error + nat" where
  "rowCount w m =
     (case list_at w (model_list m) of
        None \<Rightarrow> Inl DanglingRef
      | Some xs \<Rightarrow> Inr (length xs))"

text \<open>The two item roles the adapter answers, with Qt's numbers.\<close>

definition DisplayRole :: int where
  "DisplayRole = 0"

definition UserRole :: int where
  "UserRole = 256"

text \<open>
  What \<^verbatim>\<open>ListModel.data\<close> hands back: a \<^verbatim>\<open>QVariant\<close> around a value, the row's
  dictionary object itself, or an empty \<^verbatim>\<open>QVariant()\<close>.
\<close>

datatype role_result = QVariant pyval | RowItem dref | QVariantEmpty

definition row_item :: "world \<Rightarrow> list_model \<Rightarrow> int \<Rightarrow> py_error + dref" where
  "row_item w m row =
     (case list_at w (model_list m) of
        None \<Rightarrow> Inl DanglingRef
      | Some xs \<Rightarrow> py_index xs row)"

definition ListModel_data :: "world \<Rightarrow> list_model \<Rightarrow> int \<Rightarrow> int \<Rightarrow> py_error + role_result" where
  "ListModel_data w m row role =
     (if role = DisplayRole then
        (case row_item w m row of
           Inl e \<Rightarrow> Inl e
         | Inr d \<Rightarrow>
            (case dict_at w d of
               None \<Rightarrow> Inl DanglingRef
             | Some item \<Rightarrow>
                (case item ''name'' of
                   None \<Rightarrow> Inl KeyError
                 | Some n \<Rightarrow> Inr (QVariant n))))
      else if role = UserRole then
        (case row_item w m row of
           Inl e \<Rightarrow> Inl e
         | Inr d \<Rightarrow> Inr (RowItem d))
      else Inr QVariantEmpty)"

section \<open>The selection dialog\<close>

datatype qt_selection_mode = SingleSelection | ExtendedSelection

text \<open>
  The fields of a \<^verbatim>\<open>DialogSelectItems\<close> object, and below them what the code tells its
  widgets: the combo box (enabled, items), the list view (selection mode, model) and the
  two signal connections. A widget is recorded as the code sets it; what Qt itself does
  with the values is outside the model.
\<close>

record dialog =
  data :: lref
  selection_mode :: string
  groups :: "pyval list"
  data_refined :: "lref option"
  model :: "list_model option"
  window_title :: string
  comboBox_enabled :: bool
  comboBox_items :: "pyval list"
  listView_selectionMode :: "qt_selection_mode option"
  listView_model :: "list_model option"
  doubleClicked_accept :: bool
  currentIndexChanged_fill_list :: bool

text \<open>
  Modelled from the spec: \<^verbatim>\<open>Ui_Dialog_selectitems.setupUi\<close>, which is not part of the
  source file. The spec has the group filter control disabled until the dialog enables it;
  the combo box starts without items and the list view without a model. The arguments are
  the values the constructor assigns next: \<^verbatim>\<open>self.data\<close>, the window title and
  \<^verbatim>\<open>self.selection_mode\<close>.
\<close>

definition setupUi :: "lref \<Rightarrow> string \<Rightarrow> string \<Rightarrow> dialog" where
  "setupUi data_arg title_arg mode_arg =
     \<lparr>data = data_arg, selection_mode = mode_arg, groups = [], data_refined = None,
      model = None, window_title = title_arg, comboBox_enabled = False, comboBox_items = [],
      listView_selectionMode = None, listView_model = None, doubleClicked_accept = False,
      currentIndexChanged_fill_list = False\<rparr>"

subsection \<open>fill_list\<close>

text \<open>
  The loop of \<^verbatim>\<open>fill_list\<close> over \<^verbatim>\<open>self.data\<close>: \<^verbatim>\<open>d['group']\<close> raises
  \<^verbatim>\<open>KeyError\<close> on a dictionary without that key; a match is appended to the list object
  \<open>b\<close>, the new \<^verbatim>\<open>self.data_refined\<close>. \<open>grouper\<close> is a \<^verbatim>\<open>str\<close>, so only a string
  value can be equal to it.
\<close>

fun filter_group :: "world \<Rightarrow> lref \<Rightarrow> string \<Rightarrow> dref list \<Rightarrow> world \<times> (py_error + unit)" where
  "filter_group w b grouper [] = (w, Inr ())"
| "filter_group w b grouper (d # ds) =
     (case dict_at w d of
        None \<Rightarrow> (w, Inl DanglingRef)
      | Some item \<Rightarrow>
         (case item ''group'' of
            None \<Rightarrow> (w, Inl KeyError)
          | Some g \<Rightarrow>
             filter_group (if g = PyStr grouper then list_append w b d else w) b grouper ds))"

text \<open>\<^verbatim>\<open>self.model = ListModel(xs); self.ui.listView.setModel(self.model)\<close>\<close>

definition set_model :: "world \<Rightarrow> dialog \<Rightarrow> lref \<Rightarrow> world \<times> dialog" where
  "set_model w self xs =
     (case ListModel_init w xs of
        (w', m) \<Rightarrow> (w', self\<lparr>model := Some m, listView_model := Some m\<rparr>))"

text \<open>
  \<open>grouper\<close> is what \<^verbatim>\<open>self.ui.comboBox.currentText()\<close> answers when the method runs.
  The method returns nothing; the dialog object is handed back as it is afterwards, also
  when the method raised.
\<close>

definition fill_list :: "world \<Rightarrow> dialog \<Rightarrow> string \<Rightarrow> world \<times> dialog \<times> (py_error + unit)" where
  "fill_list w self grouper =
     (case list_at w (data self) of
        None \<Rightarrow> (w, self, Inl DanglingRef)
      | Some items \<Rightarrow>
         (case new_list w items of
            (w1, c) \<Rightarrow>
              if groups self = [] \<or> grouper = ''All'' then
                (case set_model w1 (self\<lparr>data_refined := Some c\<rparr>) c of
                   (w2, self2) \<Rightarrow> (w2, self2, Inr ()))
              else
                (case new_list w1 [] of
                   (w2, b) \<Rightarrow>
                     (case list_at w2 (data self) of
                        None \<Rightarrow> (w2, self\<lparr>data_refined := Some b\<rparr>, Inl DanglingRef)
                      | Some ds \<Rightarrow>
                         (case filter_group w2 b grouper ds of
                            (w3, Inl e) \<Rightarrow> (w3, self\<lparr>data_refined := Some b\<rparr>, Inl e)
                          | (w3, Inr u) \<Rightarrow>
                             (case set_model w3 (self\<lparr>data_refined := Some b\<rparr>) b of
                                (w4, self4) \<Rightarrow> (w4, self4, Inr ())))))))"

subsection \<open>Construction\<close>

text \<open>
  The loop of \<^verbatim>\<open>__init__\<close> over \<^verbatim>\<open>self.data\<close>. \<^verbatim>\<open>d['name']\<close> is outside the
  \<^verbatim>\<open>try\<close> and raises \<^verbatim>\<open>KeyError\<close> on a dictionary without that key; the lookup of
  \<^verbatim>\<open>d['group']\<close> is inside it, and a dictionary without a group is passed over.
\<close>

fun scan_items :: "world \<Rightarrow> dref list \<Rightarrow> bool \<Rightarrow> pyval list \<Rightarrow> py_error + bool \<times> pyval list" where
  "scan_items w [] no_name_key gs = Inr (no_name_key, gs)"
| "scan_items w (d # ds) no_name_key gs =
     (case dict_at w d of
        None \<Rightarrow> Inl DanglingRef
      | Some item \<Rightarrow>
         (case item ''name'' of
            None \<Rightarrow> Inl KeyError
          | Some n \<Rightarrow>
             scan_items w ds (if \<not> truthy n then True else no_name_key)
               (case item ''group'' of None \<Rightarrow> gs | Some g \<Rightarrow> gs @ [g])))"

text \<open>
  \<^verbatim>\<open>list(set(self.groups))\<close> keeps one copy of each value, in the order in which the set
  happens to iterate; \<open>set_order\<close> is that order, a parameter of the model.
\<close>

definition build_groups ::
  "(string \<Rightarrow> string) \<Rightarrow> (pyval list \<Rightarrow> pyval list) \<Rightarrow> dialog \<Rightarrow> pyval list \<Rightarrow> dialog" where
  "build_groups tr set_order self gs =
     (if gs \<noteq> [] then
        (let gs' = PyStr (tr ''All'') # set_order (remdups gs)
         in self\<lparr>groups := gs', comboBox_enabled := True,
                 comboBox_items := comboBox_items self @ gs'\<rparr>)
      else self\<lparr>groups := gs\<rparr>)"

definition set_selection_mode :: "dialog \<Rightarrow> dialog" where
  "set_selection_mode self =
     (if selection_mode self = ''single''
      then self\<lparr>listView_selectionMode := Some SingleSelection\<rparr>
      else self\<lparr>listView_selectionMode := Some ExtendedSelection\<rparr>)"

definition empty_warning :: "(string \<Rightarrow> string) \<Rightarrow> ui_event" where
  "empty_warning tr =
     MessageBox (tr ''Dictionary is empty'') (tr ''No data to select from'') ''warning''"

definition no_name_warning :: "(string \<Rightarrow> string) \<Rightarrow> ui_event" where
  "no_name_warning tr =
     MessageBox (tr ''Dictionary has no \"name\" key'')
       (tr ''This data does not contain names to select from'') ''warning''"

text \<open>
  The two checks of the constructor that end in a warning: \<^verbatim>\<open>if len(self.data) == 0\<close>
  before the loop and \<^verbatim>\<open>if no_name_key\<close> after it.
\<close>

definition check_data_exists :: "(string \<Rightarrow> string) \<Rightarrow> world \<Rightarrow> dref list \<Rightarrow> world" where
  "check_data_exists tr w items =
     (if length items = 0
      then Message w (tr ''Dictionary is empty'') (tr ''No data to select from'') ''warning''
      else w)"

definition check_name_key :: "(string \<Rightarrow> string) \<Rightarrow> world \<Rightarrow> bool \<Rightarrow> world" where
  "check_name_key tr w no_name_key =
     (if no_name_key
      then Message w (tr ''Dictionary has no \"name\" key'')
             (tr ''This data does not contain names to select from'') ''warning''
      else w)"

text \<open>
  \<^verbatim>\<open>DialogSelectItems.__init__(self, app_, data, title, selection_mode)\<close>. \<open>grouper\<close> is
  the current text of the combo box at the call of \<^verbatim>\<open>fill_list\<close> that ends the
  construction. The style sheet taken from \<^verbatim>\<open>app_.settings\<close> and the window flags are
  left out. When the constructor raises there is no dialog, and the world is what it was
  at the raise.
\<close>

definition DialogSelectItems_init ::
  "(string \<Rightarrow> string) \<Rightarrow> (pyval list \<Rightarrow> pyval list) \<Rightarrow> world \<Rightarrow> lref \<Rightarrow> string \<Rightarrow> string
     \<Rightarrow> string \<Rightarrow> world \<times> (py_error + dialog)" where
  "DialogSelectItems_init tr set_order w data_arg title_arg mode_arg grouper =
     (let w1 = w\<lparr>excepthook := ExceptionHandler\<rparr>;
          self = setupUi data_arg title_arg mode_arg
      in case list_at w1 data_arg of
           None \<Rightarrow> (w1, Inl DanglingRef)
         | Some items \<Rightarrow>
            (let w2 = check_data_exists tr w1 items
             in case scan_items w2 items False [] of
                  Inl e \<Rightarrow> (w2, Inl e)
                | Inr (no_name_key, gs) \<Rightarrow>
                   (let w3 = check_name_key tr w2 no_name_key;
                        self3 = set_selection_mode (build_groups tr set_order self gs)
                          \<lparr>doubleClicked_accept := True, model := None\<rparr>
                    in case fill_list w3 self3 grouper of
                         (w4, self4, Inl e) \<Rightarrow> (w4, Inl e)
                       | (w4, self4, Inr u) \<Rightarrow>
                           (w4, Inr (self4\<lparr>currentIndexChanged_fill_list := True\<rparr>)))))"

subsection \<open>get_selected\<close>

text \<open>
  What \<^verbatim>\<open>get_selected\<close> returns: one dictionary object, or a list object. The empty
  result of single mode is the list \<^verbatim>\<open>[]\<close>.
\<close>

datatype selection = SelDict dref | SelList lref

text \<open>
  The loop of multiple mode: \<^verbatim>\<open>selected.append(self.data_refined[item.row()])\<close> for the
  rows of \<^verbatim>\<open>selectedIndexes()\<close>, in their order. Subscripting \<^verbatim>\<open>None\<close> raises
  \<^verbatim>\<open>TypeError\<close>.
\<close>

fun select_rows :: "world \<Rightarrow> lref option \<Rightarrow> lref \<Rightarrow> int list \<Rightarrow> world \<times> (py_error + unit)" where
  "select_rows w dr selected [] = (w, Inr ())"
| "select_rows w dr selected (row # rows) =
     (case dr of
        None \<Rightarrow> (w, Inl TypeError)
      | Some a \<Rightarrow>
         (case list_at w a of
            None \<Rightarrow> (w, Inl DanglingRef)
          | Some view \<Rightarrow>
             (case py_index view row of
                Inl e \<Rightarrow> (w, Inl e)
              | Inr d \<Rightarrow> select_rows (list_append w selected d) dr selected rows)))"

text \<open>
  \<open>current\<close> is \<^verbatim>\<open>self.ui.listView.currentIndex().row()\<close> and \<open>rows\<close> the rows of
  \<^verbatim>\<open>self.ui.listView.selectedIndexes()\<close>.
\<close>

definition get_selected ::
  "world \<Rightarrow> dialog \<Rightarrow> int \<Rightarrow> int list \<Rightarrow> world \<times> (py_error + selection)" where
  "get_selected w self current rows =
     (if selection_mode self = ''single'' then
        (if current = - 1 then
           (case new_list w [] of (w1, e) \<Rightarrow> (w1, Inr (SelList e)))
         else
           (case data_refined self of
              None \<Rightarrow> (w, Inl TypeError)
            | Some a \<Rightarrow>
               (case list_at w a of
                  None \<Rightarrow> (w, Inl DanglingRef)
                | Some view \<Rightarrow>
                   (case py_index view current of
                      Inl e \<Rightarrow> (w, Inl e)
                    | Inr d \<Rightarrow> (w, Inr (SelDict d))))))
      else
        (case new_list w [] of
           (w1, selected) \<Rightarrow>
             (case select_rows w1 (data_refined self) selected rows of
                (w2, Inl e) \<Rightarrow> (w2, Inl e)
              | (w2, Inr u) \<Rightarrow> (w2, Inr (SelList selected)))))"

section \<open>Notions used in the statements\<close>

text \<open>The value a dictionary object holds under a key, if the object and the key exist.\<close>

definition item_field :: "world \<Rightarrow> dref \<Rightarrow> string \<Rightarrow> pyval option" where
  "item_field w d k = (case dict_at w d of None \<Rightarrow> None | Some item \<Rightarrow> item k)"

text \<open>Every reference of the list names a dictionary object of the store.\<close>

definition live_items :: "world \<Rightarrow> dref list \<Rightarrow> bool" where
  "live_items w ds = list_all (\<lambda>d. d < length (dict_store w)) ds"

text \<open>
  Every object of \<open>w\<close> is still there in \<open>w'\<close> with the content it had: no dictionary
  was written to, and the list objects of \<open>w\<close> are the first list objects of \<open>w'\<close>.
\<close>

definition preserves :: "world \<Rightarrow> world \<Rightarrow> bool" where
  "preserves w w' \<longleftrightarrow> dict_store w' = dict_store w \<and> prefix (list_store w) (list_store w')"

text \<open>
  The Filtered View in the spec's words: the whole Record Set when no groups exist or
  \<^verbatim>\<open>All\<close> is selected, otherwise the records whose \<^verbatim>\<open>group\<close> equals the selected
  value, in their order.
\<close>

definition Filtered_View :: "world \<Rightarrow> pyval list \<Rightarrow> string \<Rightarrow> dref list \<Rightarrow> dref list" where
  "Filtered_View w gs selected items =
     (if gs = [] \<or> selected = ''All'' then items
      else filter (\<lambda>d. item_field w d ''group'' = Some (PyStr selected)) items)"

subsection \<open>Example stores\<close>

text \<open>\<^verbatim>\<open>[{"name": "A"}, {"name": "B", "memo": 7}]\<close>\<close>

definition two_names :: world where
  "two_names =
     \<lparr>dict_store = [[''name'' \<mapsto> PyStr ''A''], [''name'' \<mapsto> PyStr ''B'', ''memo'' \<mapsto> PyInt 7]],
      list_store = [[0, 1]], excepthook = DefaultHook, shown = [], printed = [], logged = []\<rparr>"

text \<open>
  The scenario of the spec:
  \<^verbatim>\<open>[{"name": "A", "group": "x"}, {"name": "B", "group": "y"}, {"name": "C", "group": "x"}]\<close>,
  a dialog built over it in multiple mode while the combo box shows \<^verbatim>\<open>All\<close>, and the
  same dialog after the user has picked the group \<^verbatim>\<open>x\<close>.
\<close>

definition abc_world :: world where
  "abc_world =
     \<lparr>dict_store = [[''name'' \<mapsto> PyStr ''A'', ''group'' \<mapsto> PyStr ''x''],
                    [''name'' \<mapsto> PyStr ''B'', ''group'' \<mapsto> PyStr ''y''],
                    [''name'' \<mapsto> PyStr ''C'', ''group'' \<mapsto> PyStr ''x'']],
      list_store = [[0, 1, 2]], excepthook = DefaultHook, shown = [], printed = [], logged = []\<rparr>"

definition abc_built :: "world \<times> (py_error + dialog)" where
  "abc_built = DialogSelectItems_init id id abc_world 0 ''Select'' ''multiple'' ''All''"

definition abc_filtered :: "world \<times> dialog \<times> (py_error + unit)" where
  "abc_filtered = fill_list (fst abc_built) (projr (snd abc_built)) ''x''"

text \<open>A dialog in single mode over \<open>two_names\<close>; its combo box is empty.\<close>

definition two_names_built :: "world \<times> (py_error + dialog)" where
  "two_names_built = DialogSelectItems_init id id two_names 0 ''Select'' ''single'' []"

text \<open>A process in which some other handler is installed in \<^verbatim>\<open>sys.excepthook\<close>.\<close>

definition hooked_world :: world where
  "hooked_world = two_names\<lparr>excepthook := OtherHook 7\<rparr>"

text \<open>
  The values found under \<^verbatim>\<open>group\<close> in the records, in their order; whether every
  record has a \<^verbatim>\<open>name\<close> key; whether some record has a \<^verbatim>\<open>name\<close> whose value is
  falsy.
\<close>

definition group_values :: "world \<Rightarrow> dref list \<Rightarrow> pyval list" where
  "group_values w items = List.map_filter (\<lambda>d. item_field w d ''group'') items"

definition all_named :: "world \<Rightarrow> dref list \<Rightarrow> bool" where
  "all_named w items = list_all (\<lambda>d. item_field w d ''name'' \<noteq> None) items"

definition falsy_name :: "world \<Rightarrow> dref list \<Rightarrow> bool" where
  "falsy_name w items =
     list_ex (\<lambda>d. case item_field w d ''name'' of None \<Rightarrow> False | Some n \<Rightarrow> \<not> truthy n) items"

text \<open>The dialog object as the constructor has set it up when it calls \<^verbatim>\<open>fill_list\<close>.\<close>

definition prepared ::
  "(string \<Rightarrow> string) \<Rightarrow> (pyval list \<Rightarrow> pyval list) \<Rightarrow> lref \<Rightarrow> string \<Rightarrow> string \<Rightarrow> pyval list
     \<Rightarrow> dialog" where
  "prepared tr set_order a title_arg mode gs =
     set_selection_mode (build_groups tr set_order (setupUi a title_arg mode) gs)
       \<lparr>doubleClicked_accept := True, model := None\<rparr>"

text \<open>\<^verbatim>\<open>[{"name": "A"}, {"group": "x"}]\<close>: the second record has no name.\<close>

definition nameless_world :: world where
  "nameless_world =
     \<lparr>dict_store = [[''name'' \<mapsto> PyStr ''A''], [''group'' \<mapsto> PyStr ''x'']],
      list_store = [[0, 1]], excepthook = DefaultHook, shown = [], printed = [], logged = []\<rparr>"


text \<open>Dialogs over the scenario's records built with the mode strings \<^verbatim>\<open>Single\<close> and \<^verbatim>\<open>""\<close>.\<close>

definition capital_built :: "world \<times> (py_error + dialog)" where
  "capital_built = DialogSelectItems_init id id abc_world 0 ''Select'' ''Single'' ''All''"

definition blank_built :: "world \<times> (py_error + dialog)" where
  "blank_built = DialogSelectItems_init id id abc_world 0 ''Select'' [] ''All''"

text \<open>
  \<^verbatim>\<open>[{"name": "A", "group": "x"}, {"name": "B"}]\<close>: only the first record has a group. The
  dialog is built while the combo box shows \<^verbatim>\<open>All\<close>.
\<close>

definition mixed_world :: world where
  "mixed_world =
     \<lparr>dict_store = [[''name'' \<mapsto> PyStr ''A'', ''group'' \<mapsto> PyStr ''x''], [''name'' \<mapsto> PyStr ''B'']],
      list_store = [[0, 1]], excepthook = DefaultHook, shown = [], printed = [], logged = []\<rparr>"

definition mixed_built :: "world \<times> (py_error + dialog)" where
  "mixed_built = DialogSelectItems_init id id mixed_world 0 ''Select'' ''multiple'' ''All''"


section \<open>Facts about the store\<close>

lemma py_index_nat: "i < length xs \<Longrightarrow> py_index xs (int i) = Inr (xs ! i)"
  by (simp add: py_index_def)

lemma dict_at_list_store [simp]: "dict_at (w\<lparr>list_store := l\<rparr>) d = dict_at w d"
  by (simp add: dict_at_def)

lemma item_field_list_store [simp]: "item_field (w\<lparr>list_store := l\<rparr>) d k = item_field w d k"
  by (simp add: item_field_def)

lemma live_items_list_store [simp]: "live_items (w\<lparr>list_store := l\<rparr>) ds = live_items w ds"
  by (simp add: live_items_def)

lemma dict_at_excepthook [simp]: "dict_at (w\<lparr>excepthook := h\<rparr>) d = dict_at w d"
  by (simp add: dict_at_def)

lemma list_at_excepthook [simp]: "list_at (w\<lparr>excepthook := h\<rparr>) a = list_at w a"
  by (simp add: list_at_def)

lemma dict_at_shown [simp]: "dict_at (w\<lparr>shown := e\<rparr>) d = dict_at w d"
  by (simp add: dict_at_def)

lemma list_at_shown [simp]: "list_at (w\<lparr>shown := e\<rparr>) a = list_at w a"
  by (simp add: list_at_def)

lemma item_field_excepthook [simp]: "item_field (w\<lparr>excepthook := h\<rparr>) d k = item_field w d k"
  by (simp add: item_field_def)

lemma item_field_shown [simp]: "item_field (w\<lparr>shown := e\<rparr>) d k = item_field w d k"
  by (simp add: item_field_def)

lemma live_items_excepthook [simp]: "live_items (w\<lparr>excepthook := h\<rparr>) ds = live_items w ds"
  by (simp add: live_items_def)

lemma live_items_shown [simp]: "live_items (w\<lparr>shown := e\<rparr>) ds = live_items w ds"
  by (simp add: live_items_def)

lemma world_self_update: "w = w\<lparr>list_store := (list_store w)[b := list_store w ! b]\<rparr>"
  by simp

lemma list_append_shape:
  "\<exists>ys. list_append w b d = w\<lparr>list_store := (list_store w)[b := ys]\<rparr>"
proof (cases "list_at w b")
  case None
  with world_self_update [of w b] show ?thesis
    unfolding list_append_def by (metis option.simps(4))
next
  case (Some xs)
  then show ?thesis unfolding list_append_def by auto
qed

lemma list_append_live:
  "list_at w b = Some acc \<Longrightarrow>
   list_append w b d = w\<lparr>list_store := (list_store w)[b := acc @ [d]]\<rparr>"
  by (simp add: list_append_def)

lemma list_at_update_same:
  "list_at w b = Some acc \<Longrightarrow>
   list_at (w\<lparr>list_store := (list_store w)[b := ys]\<rparr>) b = Some ys"
  by (auto simp: list_at_def split: if_splits)

lemma list_at_update_other:
  "a \<noteq> b \<Longrightarrow> list_at (w\<lparr>list_store := (list_store w)[b := ys]\<rparr>) a = list_at w a"
  by (auto simp: list_at_def)

lemma list_update_live_id:
  "list_at w b = Some acc \<Longrightarrow> (list_store w)[b := acc] = list_store w"
  by (auto simp: list_at_def split: if_splits)

subsection \<open>The loop of fill_list\<close>

lemma filter_group_shape:
  "\<exists>ys. fst (filter_group w b g ds) = w\<lparr>list_store := (list_store w)[b := ys]\<rparr>"
proof (induction ds arbitrary: w)
  case Nil
  with world_self_update [of w b] show ?case
    by (metis filter_group.simps(1) fst_conv)
next
  case (Cons d ds)
  have self: "\<exists>ys. w = w\<lparr>list_store := (list_store w)[b := ys]\<rparr>"
    using world_self_update [of w b] by blast
  show ?case
  proof (cases "dict_at w d")
    case None
    with self show ?thesis by simp
  next
    case (Some item)
    show ?thesis
    proof (cases "item ''group''")
      case None
      with Some self show ?thesis by simp
    next
      case (Some v)
      let ?w = "if v = PyStr g then list_append w b d else w"
      obtain ys where ys: "?w = w\<lparr>list_store := (list_store w)[b := ys]\<rparr>"
        using list_append_shape [of w b d] self by (cases "v = PyStr g") auto
      obtain zs where
        zs: "fst (filter_group ?w b g ds) = ?w\<lparr>list_store := (list_store ?w)[b := zs]\<rparr>"
        using Cons.IH [of ?w] by blast
      have "fst (filter_group w b g (d # ds)) = fst (filter_group ?w b g ds)"
        using \<open>dict_at w d = Some item\<close> Some by simp
      also have "\<dots> = w\<lparr>list_store := (list_store w)[b := zs]\<rparr>"
        unfolding zs unfolding ys by simp
      finally show ?thesis by blast
    qed
  qed
qed

lemma filter_group_all_grouped:
  "list_at w b = Some acc \<Longrightarrow> live_items w ds \<Longrightarrow>
   \<forall>d\<in>set ds. item_field w d ''group'' \<noteq> None \<Longrightarrow>
   filter_group w b g ds =
     (w\<lparr>list_store := (list_store w)
          [b := acc @ filter (\<lambda>d. item_field w d ''group'' = Some (PyStr g)) ds]\<rparr>,
      Inr ())"
proof (induction ds arbitrary: w acc)
  case Nil
  then show ?case by (simp add: list_update_live_id)
next
  case (Cons d ds)
  from Cons.prems obtain item v
    where item: "dict_at w d = Some item" and v: "item ''group'' = Some v"
    by (auto simp: item_field_def live_items_def dict_at_def)
  have fld: "item_field w d ''group'' = Some v"
    using item v by (simp add: item_field_def)
  show ?case
  proof (cases "v = PyStr g")
    case True
    let ?w = "w\<lparr>list_store := (list_store w)[b := acc @ [d]]\<rparr>"
    have 1: "list_at ?w b = Some (acc @ [d])"
      using Cons.prems(1) by (rule list_at_update_same)
    have 2: "live_items ?w ds" using Cons.prems(2) by (simp add: live_items_def)
    have 3: "\<forall>d\<in>set ds. item_field ?w d ''group'' \<noteq> None" using Cons.prems(3) by simp
    have "filter_group w b g (d # ds) = filter_group ?w b g ds"
      using item v True list_append_live [OF Cons.prems(1)] by simp
    also note Cons.IH [OF 1 2 3]
    finally show ?thesis using fld True by simp
  next
    case False
    have 2: "live_items w ds" using Cons.prems(2) by (simp add: live_items_def)
    have 3: "\<forall>d\<in>set ds. item_field w d ''group'' \<noteq> None" using Cons.prems(3) by simp
    have "filter_group w b g (d # ds) = filter_group w b g ds"
      using item v False by simp
    also note Cons.IH [OF Cons.prems(1) 2 3]
    finally show ?thesis using fld False by simp
  qed
qed

lemma filter_group_KeyError:
  "live_items w ds \<Longrightarrow> \<exists>d\<in>set ds. item_field w d ''group'' = None \<Longrightarrow>
   snd (filter_group w b g ds) = Inl KeyError"
proof (induction ds arbitrary: w)
  case Nil
  then show ?case by simp
next
  case (Cons d ds)
  from Cons.prems(1) obtain item where item: "dict_at w d = Some item"
    by (auto simp: live_items_def dict_at_def)
  show ?case
  proof (cases "item ''group''")
    case None
    with item show ?thesis by simp
  next
    case (Some v)
    let ?w = "if v = PyStr g then list_append w b d else w"
    have "\<exists>ys. ?w = w\<lparr>list_store := (list_store w)[b := ys]\<rparr>"
      using list_append_shape [of w b d] world_self_update [of w b]
      by (cases "v = PyStr g") (simp, metis)
    then obtain ys where ys: "?w = w\<lparr>list_store := (list_store w)[b := ys]\<rparr>" ..
    have 1: "live_items ?w ds"
      using Cons.prems(1) unfolding ys by (simp add: live_items_def)
    have "item_field w d ''group'' \<noteq> None"
      using item Some by (simp add: item_field_def)
    with Cons.prems(2) have "\<exists>d\<in>set ds. item_field w d ''group'' = None" by auto
    then have 2: "\<exists>d\<in>set ds. item_field ?w d ''group'' = None" unfolding ys by simp
    have "snd (filter_group w b g (d # ds)) = snd (filter_group ?w b g ds)"
      using item Some by simp
    with Cons.IH [OF 1 2] show ?thesis by simp
  qed
qed

subsection \<open>The loop of get_selected\<close>

lemma select_rows_shape:
  "\<exists>ys. fst (select_rows w dr sel rows) = w\<lparr>list_store := (list_store w)[sel := ys]\<rparr>"
proof (induction rows arbitrary: w)
  case Nil
  with world_self_update [of w sel] show ?case
    by (metis select_rows.simps(1) fst_conv)
next
  case (Cons row rows)
  have self: "\<exists>ys. w = w\<lparr>list_store := (list_store w)[sel := ys]\<rparr>"
    using world_self_update [of w sel] by blast
  show ?case
  proof (cases "\<exists>a view d. dr = Some a \<and> list_at w a = Some view \<and> py_index view row = Inr d")
    case False
    then have "fst (select_rows w dr sel (row # rows)) = w"
      by (auto split: option.splits sum.splits)
    with self show ?thesis by simp
  next
    case True
    then obtain a view d
      where a: "dr = Some a" "list_at w a = Some view" "py_index view row = Inr d"
      by blast
    let ?w = "list_append w sel d"
    obtain ys where ys: "?w = w\<lparr>list_store := (list_store w)[sel := ys]\<rparr>"
      using list_append_shape [of w sel d] by blast
    obtain zs where
      zs: "fst (select_rows ?w dr sel rows) = ?w\<lparr>list_store := (list_store ?w)[sel := zs]\<rparr>"
      using Cons.IH [of ?w] by blast
    have "fst (select_rows w dr sel (row # rows)) = fst (select_rows ?w dr sel rows)"
      using a by simp
    also have "\<dots> = w\<lparr>list_store := (list_store w)[sel := zs]\<rparr>"
      unfolding zs unfolding ys by simp
    finally show ?thesis by blast
  qed
qed

lemma select_rows_valid:
  "list_at w a = Some view \<Longrightarrow> list_at w sel = Some acc \<Longrightarrow> a \<noteq> sel \<Longrightarrow>
   \<forall>r\<in>set rows. 0 \<le> r \<and> r < int (length view) \<Longrightarrow>
   select_rows w (Some a) sel rows =
     (w\<lparr>list_store := (list_store w)[sel := acc @ map (\<lambda>r. view ! nat r) rows]\<rparr>, Inr ())"
proof (induction rows arbitrary: w acc)
  case Nil
  then show ?case by (simp add: list_update_live_id)
next
  case (Cons row rows)
  let ?w = "w\<lparr>list_store := (list_store w)[sel := acc @ [view ! nat row]]\<rparr>"
  have ix: "py_index view row = Inr (view ! nat row)"
    using Cons.prems(4) by (simp add: py_index_def)
  have 1: "list_at ?w a = Some view"
    using Cons.prems(1,3) by (simp add: list_at_update_other)
  have 2: "list_at ?w sel = Some (acc @ [view ! nat row])"
    using Cons.prems(2) by (rule list_at_update_same)
  have 4: "\<forall>r\<in>set rows. 0 \<le> r \<and> r < int (length view)" using Cons.prems(4) by simp
  have "select_rows w (Some a) sel (row # rows) = select_rows ?w (Some a) sel rows"
    using Cons.prems(1) ix list_append_live [OF Cons.prems(2)] by simp
  also note Cons.IH [OF 1 2 Cons.prems(3) 4]
  finally show ?case by simp
qed

section \<open>Facts about fill_list\<close>

lemma list_at_new_list_old:
  "list_at w a = Some xs \<Longrightarrow> list_at (w\<lparr>list_store := list_store w @ ext\<rparr>) a = Some xs"
  by (auto simp: list_at_def nth_append split: if_splits)

lemma fill_list_all:
  assumes "list_at w (data self) = Some items" and "groups self = [] \<or> grouper = ''All''"
  shows "fill_list w self grouper =
           (w\<lparr>list_store := list_store w @ [items], excepthook := ExceptionHandler\<rparr>,
            self\<lparr>data_refined := Some (length (list_store w)),
                 model := Some (ListModel (length (list_store w))),
                 listView_model := Some (ListModel (length (list_store w)))\<rparr>,
            Inr ())"
  using assms by (auto simp: fill_list_def new_list_def set_model_def ListModel_init_def)

lemma fill_list_group:
  assumes "list_at w (data self) = Some items" and "groups self \<noteq> []" and "grouper \<noteq> ''All''"
    and "live_items w items" and "\<forall>d\<in>set items. item_field w d ''group'' \<noteq> None"
  shows "fill_list w self grouper =
           (w\<lparr>list_store := list_store w @
                 [items, filter (\<lambda>d. item_field w d ''group'' = Some (PyStr grouper)) items],
               excepthook := ExceptionHandler\<rparr>,
            self\<lparr>data_refined := Some (Suc (length (list_store w))),
                 model := Some (ListModel (Suc (length (list_store w)))),
                 listView_model := Some (ListModel (Suc (length (list_store w))))\<rparr>,
            Inr ())"
proof -
  let ?w2 = "w\<lparr>list_store := list_store w @ [items] @ [[]]\<rparr>"
  let ?b = "Suc (length (list_store w))"
  have d: "list_at ?w2 (data self) = Some items"
    using assms(1) by (rule list_at_new_list_old)
  have b: "list_at ?w2 ?b = Some []"
    by (simp add: list_at_def nth_append)
  have l: "live_items ?w2 items" using assms(4) by simp
  have g: "\<forall>d\<in>set items. item_field ?w2 d ''group'' \<noteq> None" using assms(5) by simp
  note fg = filter_group_all_grouped [OF b l g, of grouper]
  have upd: "(list_store w @ [items, []])[?b := ys] = list_store w @ [items, ys]" for ys
    by (simp add: list_update_append)
  show ?thesis
    using assms(1,2,3) d fg
    by (simp add: fill_list_def new_list_def set_model_def ListModel_init_def upd)
qed

lemma fill_list_KeyError:
  assumes "list_at w (data self) = Some items" and "groups self \<noteq> []" and "grouper \<noteq> ''All''"
    and "live_items w items" and "\<exists>d\<in>set items. item_field w d ''group'' = None"
  shows "snd (snd (fill_list w self grouper)) = Inl KeyError"
proof -
  let ?w2 = "w\<lparr>list_store := list_store w @ [items] @ [[]]\<rparr>"
  let ?b = "Suc (length (list_store w))"
  have d: "list_at ?w2 (data self) = Some items"
    using assms(1) by (rule list_at_new_list_old)
  have l: "live_items ?w2 items" using assms(4) by simp
  have g: "\<exists>d\<in>set items. item_field ?w2 d ''group'' = None" using assms(5) by simp
  obtain w3 r where fg: "filter_group ?w2 ?b grouper items = (w3, r)"
    by (cases "filter_group ?w2 ?b grouper items")
  with filter_group_KeyError [OF l g, of ?b grouper] have r: "r = Inl KeyError" by simp
  show ?thesis
    using assms(1,2,3) d fg r
    by (simp add: fill_list_def new_list_def)
qed


lemma fill_list_shape:
  "\<exists>ext h. fst (fill_list w self grouper) = w\<lparr>list_store := list_store w @ ext, excepthook := h\<rparr>
     \<and> (h = excepthook w \<or> h = ExceptionHandler)"
proof (cases "list_at w (data self)")
  case None
  have "w = w\<lparr>list_store := list_store w @ [], excepthook := excepthook w\<rparr>" by simp
  moreover have "fst (fill_list w self grouper) = w" using None by (simp add: fill_list_def)
  ultimately show ?thesis by (intro exI [of _ "[]"] exI [of _ "excepthook w"]) simp
next
  case (Some items)
  show ?thesis
  proof (cases "groups self = [] \<or> grouper = ''All''")
    case True
    show ?thesis unfolding fill_list_all [OF Some True]
      by (intro exI [of _ "[items]"] exI [of _ ExceptionHandler]) simp
  next
    case False
    let ?w2 = "w\<lparr>list_store := list_store w @ [items] @ [[]]\<rparr>"
    let ?b = "Suc (length (list_store w))"
    have d: "list_at ?w2 (data self) = Some items"
      using Some by (rule list_at_new_list_old)
    obtain ys where
      ys: "fst (filter_group ?w2 ?b grouper items) = ?w2\<lparr>list_store := (list_store ?w2)[?b := ys]\<rparr>"
      using filter_group_shape by blast
    have upd: "(list_store w @ [items, []])[?b := ys] = list_store w @ [items, ys]"
      by (simp add: list_update_append)
    obtain w3 r where fg: "filter_group ?w2 ?b grouper items = (w3, r)"
      by (cases "filter_group ?w2 ?b grouper items")
    with ys upd have w3: "w3 = w\<lparr>list_store := list_store w @ [items, ys]\<rparr>" by simp
    show ?thesis
    proof (cases r)
      case (Inl e)
      then have "fst (fill_list w self grouper) = w3"
        using Some False d fg by (simp add: fill_list_def new_list_def)
      then show ?thesis unfolding w3
        by (intro exI [of _ "[items, ys]"] exI [of _ "excepthook w"]) simp
    next
      case (Inr u)
      then have "fst (fill_list w self grouper) = w3\<lparr>excepthook := ExceptionHandler\<rparr>"
        using Some False d fg
        by (simp add: fill_list_def new_list_def set_model_def ListModel_init_def)
      then show ?thesis unfolding w3
        by (intro exI [of _ "[items, ys]"] exI [of _ ExceptionHandler]) simp
    qed
  qed
qed

lemma fill_list_data_refined:
  assumes "list_at w (data self) = Some items"
  shows "\<exists>c. data_refined (fst (snd (fill_list w self grouper))) = Some c \<and> length (list_store w) \<le> c"
proof (cases "groups self = [] \<or> grouper = ''All''")
  case True
  show ?thesis unfolding fill_list_all [OF assms True] by simp
next
  case False
  let ?w2 = "w\<lparr>list_store := list_store w @ [items] @ [[]]\<rparr>"
  let ?b = "Suc (length (list_store w))"
  have d: "list_at ?w2 (data self) = Some items"
    using assms by (rule list_at_new_list_old)
  obtain w3 r where fg: "filter_group ?w2 ?b grouper items = (w3, r)"
    by (cases "filter_group ?w2 ?b grouper items")
  have "data_refined (fst (snd (fill_list w self grouper))) = Some ?b"
    using assms False d fg
    by (cases r) (simp_all add: fill_list_def new_list_def set_model_def ListModel_init_def)
  then show ?thesis by simp
qed

lemma fill_list_self_shape:
  "\<exists>dr mo lm. fst (snd (fill_list w self grouper)) =
     self\<lparr>data_refined := dr, model := mo, listView_model := lm\<rparr>"
proof (cases "list_at w (data self)")
  case None
  then have "fst (snd (fill_list w self grouper)) = self"
    by (simp add: fill_list_def)
  then show ?thesis
    by (intro exI [of _ "data_refined self"] exI [of _ "model self"]
          exI [of _ "listView_model self"]) simp
next
  case (Some items)
  show ?thesis
  proof (cases "groups self = [] \<or> grouper = ''All''")
    case True
    show ?thesis unfolding fill_list_all [OF Some True]
      by (intro exI [of _ "Some (length (list_store w))"]
            exI [of _ "Some (ListModel (length (list_store w)))"]) simp
  next
    case False
    let ?w2 = "w\<lparr>list_store := list_store w @ [items] @ [[]]\<rparr>"
    let ?b = "Suc (length (list_store w))"
    have d: "list_at ?w2 (data self) = Some items"
      using Some by (rule list_at_new_list_old)
    obtain w3 r where fg: "filter_group ?w2 ?b grouper items = (w3, r)"
      by (cases "filter_group ?w2 ?b grouper items")
    show ?thesis
    proof (cases r)
      case (Inl e)
      then have "fst (snd (fill_list w self grouper)) = self\<lparr>data_refined := Some ?b\<rparr>"
        using Some False d fg by (simp add: fill_list_def new_list_def)
      then show ?thesis
        by (intro exI [of _ "Some ?b"] exI [of _ "model self"]
              exI [of _ "listView_model self"]) simp
    next
      case (Inr u)
      then have "fst (snd (fill_list w self grouper)) =
         self\<lparr>data_refined := Some ?b, model := Some (ListModel ?b),
              listView_model := Some (ListModel ?b)\<rparr>"
        using Some False d fg
        by (simp add: fill_list_def new_list_def set_model_def ListModel_init_def)
      then show ?thesis
        by (intro exI [of _ "Some ?b"] exI [of _ "Some (ListModel ?b)"]) simp
    qed
  qed
qed

lemma filter_group_Inr:
  "snd (filter_group w b g ds) = Inr u \<Longrightarrow>
   live_items w ds \<and> (\<forall>d\<in>set ds. item_field w d ''group'' \<noteq> None)"
proof (induction ds arbitrary: w)
  case Nil
  then show ?case by (simp add: live_items_def)
next
  case (Cons d ds)
  from Cons.prems obtain item v
    where item: "dict_at w d = Some item" and v: "item ''group'' = Some v"
    by (auto split: option.splits)
  let ?w = "if v = PyStr g then list_append w b d else w"
  have "\<exists>ys. ?w = w\<lparr>list_store := (list_store w)[b := ys]\<rparr>"
    using list_append_shape [of w b d] world_self_update [of w b]
    by (cases "v = PyStr g") (simp, metis)
  then obtain ys where ys: "?w = w\<lparr>list_store := (list_store w)[b := ys]\<rparr>" ..
  have "snd (filter_group ?w b g ds) = Inr u"
    using Cons.prems item v by simp
  from Cons.IH [OF this]
  have "live_items w ds" and "\<forall>d\<in>set ds. item_field w d ''group'' \<noteq> None"
    unfolding ys by simp_all
  moreover have "d < length (dict_store w)"
    using item by (simp add: dict_at_def split: if_splits)
  moreover have "item_field w d ''group'' \<noteq> None"
    using item v by (simp add: item_field_def)
  ultimately show ?case by (simp add: live_items_def)
qed

lemma fill_list_Inr:
  assumes "fill_list w self grouper = (w', self', Inr u)"
  shows "\<exists>items. list_at w (data self) = Some items \<and>
           (groups self = [] \<or> grouper = ''All'' \<or>
            live_items w items \<and> (\<forall>d\<in>set items. item_field w d ''group'' \<noteq> None))"
proof (cases "list_at w (data self)")
  case None
  with assms show ?thesis by (simp add: fill_list_def)
next
  case (Some items)
  show ?thesis
  proof (cases "groups self = [] \<or> grouper = ''All''")
    case True
    with Some show ?thesis by auto
  next
    case False
    let ?w2 = "w\<lparr>list_store := list_store w @ [items] @ [[]]\<rparr>"
    let ?b = "Suc (length (list_store w))"
    have d: "list_at ?w2 (data self) = Some items"
      using Some by (rule list_at_new_list_old)
    obtain w3 r where fg: "filter_group ?w2 ?b grouper items = (w3, r)"
      by (cases "filter_group ?w2 ?b grouper items")
    have "r = Inr ()"
      using assms Some False d fg
      by (cases r) (simp_all add: fill_list_def new_list_def set_model_def ListModel_init_def)
    with fg have "snd (filter_group ?w2 ?b grouper items) = Inr ()" by simp
    from filter_group_Inr [OF this] Some show ?thesis by simp
  qed
qed

lemma fill_list_result:
  assumes "fill_list w self grouper = (w', self', Inr u)"
    and "list_at w (data self) = Some items"
  shows "\<exists>c. length (list_store w) \<le> c \<and>
           list_at w' c = Some (Filtered_View w (groups self) grouper items) \<and>
           self' = self\<lparr>data_refined := Some c, model := Some (ListModel c),
                        listView_model := Some (ListModel c)\<rparr>"
proof (cases "groups self = [] \<or> grouper = ''All''")
  case True
  from assms(1) have "w' = w\<lparr>list_store := list_store w @ [items], excepthook := ExceptionHandler\<rparr>"
    and "self' = self\<lparr>data_refined := Some (length (list_store w)),
                 model := Some (ListModel (length (list_store w))),
                 listView_model := Some (ListModel (length (list_store w)))\<rparr>"
    unfolding fill_list_all [OF assms(2) True] by simp_all
  with True show ?thesis
    by (intro exI [of _ "length (list_store w)"]) (simp add: list_at_def Filtered_View_def)
next
  case False
  with fill_list_Inr [OF assms(1)] assms(2)
  have l: "live_items w items" and g: "\<forall>d\<in>set items. item_field w d ''group'' \<noteq> None"
    by auto
  from False have f: "groups self \<noteq> []" "grouper \<noteq> ''All''" by auto
  from assms(1) have "w' = w\<lparr>list_store := list_store w @
                 [items, filter (\<lambda>d. item_field w d ''group'' = Some (PyStr grouper)) items],
               excepthook := ExceptionHandler\<rparr>"
    and "self' = self\<lparr>data_refined := Some (Suc (length (list_store w))),
                 model := Some (ListModel (Suc (length (list_store w)))),
                 listView_model := Some (ListModel (Suc (length (list_store w))))\<rparr>"
    unfolding fill_list_group [OF assms(2) f l g] by simp_all
  with False show ?thesis
    by (intro exI [of _ "Suc (length (list_store w))"])
       (simp add: list_at_def Filtered_View_def nth_append)
qed

section \<open>Facts about the constructor\<close>

lemma scan_items_named:
  "live_items w ds \<Longrightarrow> \<forall>d\<in>set ds. item_field w d ''name'' \<noteq> None \<Longrightarrow>
   scan_items w ds nnk gs =
     Inr (nnk \<or> (\<exists>d\<in>set ds. \<exists>n. item_field w d ''name'' = Some n \<and> \<not> truthy n),
          gs @ List.map_filter (\<lambda>d. item_field w d ''group'') ds)"
proof (induction ds arbitrary: nnk gs)
  case Nil
  then show ?case by simp
next
  case (Cons d ds)
  from Cons.prems obtain item n
    where item: "dict_at w d = Some item" and n: "item ''name'' = Some n"
    by (auto simp: item_field_def live_items_def dict_at_def)
  have fn: "item_field w d ''name'' = Some n" and fg: "item_field w d ''group'' = item ''group''"
    using item n by (simp_all add: item_field_def)
  have 1: "live_items w ds" using Cons.prems(1) by (simp add: live_items_def)
  have 2: "\<forall>d\<in>set ds. item_field w d ''name'' \<noteq> None" using Cons.prems(2) by simp
  show ?case
    using item n fn fg Cons.IH [OF 1 2]
    by (cases "item ''group''") auto
qed

lemma scan_items_KeyError:
  "live_items w ds \<Longrightarrow> \<exists>d\<in>set ds. item_field w d ''name'' = None \<Longrightarrow>
   scan_items w ds nnk gs = Inl KeyError"
proof (induction ds arbitrary: nnk gs)
  case Nil
  then show ?case by simp
next
  case (Cons d ds)
  from Cons.prems(1) obtain item where item: "dict_at w d = Some item"
    by (auto simp: live_items_def dict_at_def)
  have 1: "live_items w ds" using Cons.prems(1) by (simp add: live_items_def)
  show ?case
  proof (cases "item ''name''")
    case None
    with item show ?thesis by simp
  next
    case (Some n)
    then have "item_field w d ''name'' \<noteq> None" using item by (simp add: item_field_def)
    with Cons.prems(2) have "\<exists>d\<in>set ds. item_field w d ''name'' = None" by auto
    from Cons.IH [OF 1 this] item Some show ?thesis by simp
  qed
qed

lemma check_data_exists_eq:
  "check_data_exists tr w items = w\<lparr>shown := shown w @ (if items = [] then [empty_warning tr] else [])\<rparr>"
  by (simp add: check_data_exists_def Message_def empty_warning_def)

lemma check_name_key_eq:
  "check_name_key tr w nnk = w\<lparr>shown := shown w @ (if nnk then [no_name_warning tr] else [])\<rparr>"
  by (simp add: check_name_key_def Message_def no_name_warning_def)

lemma init_dangling:
  "list_at w a = None \<Longrightarrow>
   DialogSelectItems_init tr so w a t m g = (w\<lparr>excepthook := ExceptionHandler\<rparr>, Inl DanglingRef)"
  by (simp add: DialogSelectItems_init_def)

lemma init_scan_error:
  "list_at w a = Some items \<Longrightarrow>
   scan_items (check_data_exists tr (w\<lparr>excepthook := ExceptionHandler\<rparr>) items) items False [] = Inl e \<Longrightarrow>
   DialogSelectItems_init tr so w a t m g =
     (check_data_exists tr (w\<lparr>excepthook := ExceptionHandler\<rparr>) items, Inl e)"
  by (simp add: DialogSelectItems_init_def Let_def)

lemma init_scan_ok:
  "list_at w a = Some items \<Longrightarrow>
   scan_items (check_data_exists tr (w\<lparr>excepthook := ExceptionHandler\<rparr>) items) items False [] = Inr (nnk, gs) \<Longrightarrow>
   fill_list (check_name_key tr (check_data_exists tr (w\<lparr>excepthook := ExceptionHandler\<rparr>) items) nnk)
     (set_selection_mode (build_groups tr so (setupUi a t m) gs)\<lparr>doubleClicked_accept := True, model := None\<rparr>) g
     = (w4, self4, r) \<Longrightarrow>
   DialogSelectItems_init tr so w a t m g =
     (w4, case r of Inl e \<Rightarrow> Inl e | Inr u \<Rightarrow> Inr (self4\<lparr>currentIndexChanged_fill_list := True\<rparr>))"
  by (cases r) (simp_all add: DialogSelectItems_init_def Let_def)


lemma init_shape:
  "\<exists>ext ms. fst (DialogSelectItems_init tr so w a t m g) =
     w\<lparr>list_store := list_store w @ ext, excepthook := ExceptionHandler, shown := shown w @ ms\<rparr>"
proof (cases "list_at w a")
  case None
  show ?thesis unfolding init_dangling [OF None]
    by (intro exI [of _ "[]"]) simp
next
  case (Some items)
  let ?w2 = "check_data_exists tr (w\<lparr>excepthook := ExceptionHandler\<rparr>) items"
  show ?thesis
  proof (cases "scan_items ?w2 items False []")
    case (Inl e)
    show ?thesis unfolding init_scan_error [OF Some Inl] check_data_exists_eq
      by (intro exI [of _ "[]"] exI [of _ "if items = [] then [empty_warning tr] else []"]) simp
  next
    case (Inr res)
    obtain nnk gs where res: "res = (nnk, gs)" by (cases res)
    let ?w3 = "check_name_key tr ?w2 nnk"
    let ?self3 = "set_selection_mode (build_groups tr so (setupUi a t m) gs)
                    \<lparr>doubleClicked_accept := True, model := None\<rparr>"
    let ?ms = "(if items = [] then [empty_warning tr] else [])
                 @ (if nnk then [no_name_warning tr] else [])"
    have w3: "?w3 = w\<lparr>excepthook := ExceptionHandler, shown := shown w @ ?ms\<rparr>"
      by (simp add: check_data_exists_eq check_name_key_eq)
    obtain ext h
      where f: "fst (fill_list ?w3 ?self3 g) = ?w3\<lparr>list_store := list_store ?w3 @ ext, excepthook := h\<rparr>"
        and h: "h = excepthook ?w3 \<or> h = ExceptionHandler"
      using fill_list_shape [of ?w3 ?self3 g] by blast
    from h have h': "h = ExceptionHandler" unfolding w3 by auto
    obtain w4 self4 r where fl: "fill_list ?w3 ?self3 g = (w4, self4, r)"
      by (cases "fill_list ?w3 ?self3 g")
    have "fst (DialogSelectItems_init tr so w a t m g) = w4"
      using init_scan_ok [OF Some Inr [unfolded res] fl] by simp
    moreover have "w4 = w\<lparr>list_store := list_store w @ ext, excepthook := ExceptionHandler,
                            shown := shown w @ ?ms\<rparr>"
      using f fl h' unfolding w3 by simp
    ultimately show ?thesis by blast
  qed
qed

lemma falsy_name_iff:
  "falsy_name w items \<longleftrightarrow> (\<exists>d\<in>set items. \<exists>n. item_field w d ''name'' = Some n \<and> \<not> truthy n)"
  by (auto simp: falsy_name_def list_ex_iff split: option.splits)

lemma all_named_iff: "all_named w items \<longleftrightarrow> (\<forall>d\<in>set items. item_field w d ''name'' \<noteq> None)"
  by (simp add: all_named_def list_all_iff)

lemma set_group_values:
  "set (group_values w items) = {v. \<exists>d\<in>set items. item_field w d ''group'' = Some v}"
  by (force simp: group_values_def List.map_filter_def)

lemma group_values_Nil:
  "group_values w items = [] \<longleftrightarrow> (\<forall>d\<in>set items. item_field w d ''group'' = None)"
proof -
  have "group_values w items = [] \<longleftrightarrow> set (group_values w items) = {}" by simp
  also have "\<dots> \<longleftrightarrow> (\<forall>d\<in>set items. item_field w d ''group'' = None)"
    unfolding set_group_values by (auto simp: all_conj_distrib) (metis option.exhaust)
  finally show ?thesis .
qed

lemma scan_items_Inr:
  "scan_items w ds nnk gs = Inr r \<Longrightarrow> live_items w ds \<and> all_named w ds"
proof (induction ds arbitrary: nnk gs)
  case Nil
  then show ?case by (simp add: live_items_def all_named_def)
next
  case (Cons d ds)
  from Cons.prems obtain item n
    where item: "dict_at w d = Some item" and n: "item ''name'' = Some n"
    by (auto split: option.splits)
  from Cons.prems item n obtain nnk' gs' where "scan_items w ds nnk' gs' = Inr r"
    by auto
  from Cons.IH [OF this] have "live_items w ds" "all_named w ds" by simp_all
  moreover have "d < length (dict_store w)"
    using item by (simp add: dict_at_def split: if_splits)
  moreover have "item_field w d ''name'' \<noteq> None"
    using item n by (simp add: item_field_def)
  ultimately show ?case by (simp add: live_items_def all_named_def)
qed

lemma scan_items_result:
  "live_items w ds \<Longrightarrow> all_named w ds \<Longrightarrow>
   scan_items w ds False [] = Inr (falsy_name w ds, group_values w ds)"
  using scan_items_named [of w ds False "[]"]
  by (simp add: all_named_iff falsy_name_iff group_values_def)

lemma live_items_check [simp]:
  "live_items (check_data_exists tr w xs) ds = live_items w ds"
  by (simp add: check_data_exists_eq)

lemma all_named_shown [simp]: "all_named (w\<lparr>shown := e\<rparr>) ds = all_named w ds"
  by (simp add: all_named_def)

lemma all_named_excepthook [simp]: "all_named (w\<lparr>excepthook := e\<rparr>) ds = all_named w ds"
  by (simp add: all_named_def)

lemma falsy_name_shown [simp]: "falsy_name (w\<lparr>shown := e\<rparr>) ds = falsy_name w ds"
  by (simp add: falsy_name_def)

lemma falsy_name_excepthook [simp]: "falsy_name (w\<lparr>excepthook := e\<rparr>) ds = falsy_name w ds"
  by (simp add: falsy_name_def)

lemma group_values_shown [simp]: "group_values (w\<lparr>shown := e\<rparr>) ds = group_values w ds"
  by (simp add: group_values_def)

lemma group_values_excepthook [simp]: "group_values (w\<lparr>excepthook := e\<rparr>) ds = group_values w ds"
  by (simp add: group_values_def)

lemma Filtered_View_shown [simp]: "Filtered_View (w\<lparr>shown := e\<rparr>) gs g ds = Filtered_View w gs g ds"
  by (simp add: Filtered_View_def)

lemma Filtered_View_excepthook [simp]:
  "Filtered_View (w\<lparr>excepthook := e\<rparr>) gs g ds = Filtered_View w gs g ds"
  by (simp add: Filtered_View_def)

lemma init_named:
  assumes "list_at w a = Some items" and "live_items w items" and "all_named w items"
    and "fill_list
           (w\<lparr>excepthook := ExceptionHandler,
              shown := shown w @ (if items = [] then [empty_warning tr] else [])
                         @ (if falsy_name w items then [no_name_warning tr] else [])\<rparr>)
           (prepared tr so a t m (group_values w items)) g = (w4, self4, r)"
  shows "DialogSelectItems_init tr so w a t m g =
           (w4, case r of Inl e \<Rightarrow> Inl e
                | Inr u \<Rightarrow> Inr (self4\<lparr>currentIndexChanged_fill_list := True\<rparr>))"
proof -
  let ?w2 = "check_data_exists tr (w\<lparr>excepthook := ExceptionHandler\<rparr>) items"
  have scan: "scan_items ?w2 items False [] = Inr (falsy_name w items, group_values w items)"
    using scan_items_result [of ?w2 items] assms(2,3)
    by (simp add: check_data_exists_eq)
  have w3: "check_name_key tr ?w2 (falsy_name w items) =
      w\<lparr>excepthook := ExceptionHandler,
        shown := shown w @ (if items = [] then [empty_warning tr] else [])
                   @ (if falsy_name w items then [no_name_warning tr] else [])\<rparr>"
    by (simp add: check_data_exists_eq check_name_key_eq)
  from assms(4) show ?thesis
    using init_scan_ok [OF assms(1) scan, of so t m g w4 self4 r]
    unfolding w3 prepared_def by simp
qed

lemma init_unnamed:
  assumes "list_at w a = Some items" and "live_items w items" and "\<not> all_named w items"
  shows "DialogSelectItems_init tr so w a t m g = (w\<lparr>excepthook := ExceptionHandler\<rparr>, Inl KeyError)"
proof -
  let ?w2 = "check_data_exists tr (w\<lparr>excepthook := ExceptionHandler\<rparr>) items"
  from assms(3) have ex: "\<exists>d\<in>set items. item_field ?w2 d ''name'' = None"
    by (simp add: all_named_iff check_data_exists_eq)
  then have ne: "items \<noteq> []" by auto
  have "scan_items ?w2 items False [] = Inl KeyError"
    using assms(2) ex by (intro scan_items_KeyError) simp_all
  from init_scan_error [OF assms(1) this] ne show ?thesis
    by (simp add: check_data_exists_eq)
qed

lemma init_Inr:
  assumes "DialogSelectItems_init tr so w a t m g = (w', Inr self)"
  shows "\<exists>items. list_at w a = Some items \<and> live_items w items \<and> all_named w items"
proof (cases "list_at w a")
  case None
  from assms show ?thesis unfolding init_dangling [OF None] by simp
next
  case (Some items)
  let ?w2 = "check_data_exists tr (w\<lparr>excepthook := ExceptionHandler\<rparr>) items"
  show ?thesis
  proof (cases "scan_items ?w2 items False []")
    case (Inl e)
    from assms show ?thesis unfolding init_scan_error [OF Some Inl] by simp
  next
    case (Inr r)
    from scan_items_Inr [OF this] Some show ?thesis
      by (simp add: check_data_exists_eq)
  qed
qed

lemma init_Inr_result:
  assumes "DialogSelectItems_init tr so w a t m g = (w', Inr self)"
    and "list_at w a = Some items"
  shows "\<exists>c. length (list_store w) \<le> c \<and>
           list_at w' c = Some (Filtered_View w (groups (prepared tr so a t m (group_values w items))) g items) \<and>
           self = (prepared tr so a t m (group_values w items))
                    \<lparr>data_refined := Some c, model := Some (ListModel c),
                     listView_model := Some (ListModel c),
                     currentIndexChanged_fill_list := True\<rparr>"
proof -
  from init_Inr [OF assms(1)] assms(2)
  have l: "live_items w items" and n: "all_named w items" by auto
  let ?w3 = "w\<lparr>excepthook := ExceptionHandler,
              shown := shown w @ (if items = [] then [empty_warning tr] else [])
                         @ (if falsy_name w items then [no_name_warning tr] else [])\<rparr>"
  let ?p = "prepared tr so a t m (group_values w items)"
  obtain w4 self4 r where f: "fill_list ?w3 ?p g = (w4, self4, r)"
    by (cases "fill_list ?w3 ?p g")
  from init_named [OF assms(2) l n f] assms(1)
  have w4: "w4 = w'" and r: "r = Inr ()" and self: "self = self4\<lparr>currentIndexChanged_fill_list := True\<rparr>"
    by (cases r; simp)+
  have d: "data ?p = a"
    by (simp add: prepared_def set_selection_mode_def build_groups_def setupUi_def Let_def)
  have "list_at ?w3 (data ?p) = Some items" using assms(2) d by simp
  from fill_list_result [OF f [unfolded r w4] this]
  obtain c where "length (list_store ?w3) \<le> c"
    and "list_at w' c = Some (Filtered_View ?w3 (groups ?p) g items)"
    and "self4 = ?p\<lparr>data_refined := Some c, model := Some (ListModel c),
                        listView_model := Some (ListModel c)\<rparr>"
    by blast
  with self show ?thesis by (intro exI [of _ c]) simp
qed

lemma prepared_fields:
  "groups (prepared tr so a t m gs) = (if gs = [] then [] else PyStr (tr ''All'') # so (remdups gs))"
  "comboBox_enabled (prepared tr so a t m gs) = (gs \<noteq> [])"
  "comboBox_items (prepared tr so a t m gs) = groups (prepared tr so a t m gs)"
  "selection_mode (prepared tr so a t m gs) = m"
  "listView_selectionMode (prepared tr so a t m gs)
     = Some (if m = ''single'' then SingleSelection else ExtendedSelection)"
  "data (prepared tr so a t m gs) = a"
  by (simp_all add: prepared_def set_selection_mode_def build_groups_def setupUi_def Let_def)

section \<open>Facts about get_selected\<close>

lemma get_selected_shape:
  "\<exists>ext. fst (get_selected w self current rows) = w\<lparr>list_store := list_store w @ ext\<rparr>"
proof (cases "selection_mode self = ''single''")
  case True
  have id: "w = w\<lparr>list_store := list_store w @ []\<rparr>" by simp
  show ?thesis
  proof (cases "current = - 1")
    case c: True
    with True have
      "fst (get_selected w self current rows) = w\<lparr>list_store := list_store w @ [[]]\<rparr>"
      by (simp add: get_selected_def new_list_def)
    then show ?thesis ..
  next
    case False
    with True have "fst (get_selected w self current rows) = w"
      by (simp add: get_selected_def split: option.splits sum.splits)
    with id show ?thesis by (intro exI [of _ "[]"]) simp
  qed
next
  case False
  let ?w1 = "w\<lparr>list_store := list_store w @ [[]]\<rparr>"
  let ?sel = "length (list_store w)"
  obtain ys where ys: "fst (select_rows ?w1 (data_refined self) ?sel rows)
      = ?w1\<lparr>list_store := (list_store ?w1)[?sel := ys]\<rparr>"
    using select_rows_shape by blast
  obtain w2 r where sr: "select_rows ?w1 (data_refined self) ?sel rows = (w2, r)"
    by (cases "select_rows ?w1 (data_refined self) ?sel rows")
  have "fst (get_selected w self current rows) = w2"
    using False sr by (cases r) (simp_all add: get_selected_def new_list_def)
  moreover have "w2 = w\<lparr>list_store := list_store w @ [ys]\<rparr>"
    using ys sr by simp
  ultimately show ?thesis by (intro exI [of _ "[ys]"]) simp
qed

lemma get_selected_single_none:
  "selection_mode self = ''single'' \<Longrightarrow>
   get_selected w self (- 1) rows =
     (w\<lparr>list_store := list_store w @ [[]]\<rparr>, Inr (SelList (length (list_store w))))"
  by (simp add: get_selected_def new_list_def)

lemma get_selected_single_row:
  "selection_mode self = ''single'' \<Longrightarrow> data_refined self = Some a \<Longrightarrow>
   list_at w a = Some view \<Longrightarrow> i < length view \<Longrightarrow>
   get_selected w self (int i) rows = (w, Inr (SelDict (view ! i)))"
  by (simp add: get_selected_def py_index_nat)

lemma get_selected_multiple_rows:
  assumes "selection_mode self \<noteq> ''single''" and "data_refined self = Some a"
    and "list_at w a = Some view" and "\<forall>r\<in>set rows. 0 \<le> r \<and> r < int (length view)"
  shows "get_selected w self current rows =
           (w\<lparr>list_store := list_store w @ [map (\<lambda>r. view ! nat r) rows]\<rparr>,
            Inr (SelList (length (list_store w))))"
proof -
  let ?w1 = "w\<lparr>list_store := list_store w @ [[]]\<rparr>"
  let ?sel = "length (list_store w)"
  have 1: "list_at ?w1 a = Some view" using assms(3) by (rule list_at_new_list_old)
  have 2: "list_at ?w1 ?sel = Some []" by (simp add: list_at_def)
  have 3: "a \<noteq> ?sel" using assms(3) by (auto simp: list_at_def split: if_splits)
  from select_rows_valid [OF 1 2 3 assms(4)] assms(1,2)
  show ?thesis by (simp add: get_selected_def new_list_def)
qed

lemma get_selected_never_dict:
  "selection_mode self \<noteq> ''single'' \<Longrightarrow>
   snd (get_selected w self current rows) \<noteq> Inr (SelDict d)"
  by (simp add: get_selected_def new_list_def split: prod.splits sum.splits)

section \<open>The example dialogs, evaluated\<close>

lemmas model_defs = DialogSelectItems_init_def fill_list_def setupUi_def list_at_def new_list_def
  dict_at_def list_append_def set_model_def ListModel_init_def build_groups_def
  set_selection_mode_def Message_def check_data_exists_def check_name_key_def Let_def

lemma two_names_built_eq:
  "two_names_built =
     (two_names\<lparr>list_store := [[0, 1], [0, 1]], excepthook := ExceptionHandler\<rparr>,
      Inr ((setupUi 0 ''Select'' ''single'')
           \<lparr>data_refined := Some 1, model := Some (ListModel 1),
            listView_selectionMode := Some SingleSelection,
            listView_model := Some (ListModel 1), doubleClicked_accept := True,
            currentIndexChanged_fill_list := True\<rparr>))"
  by (simp add: two_names_built_def two_names_def model_defs)

lemma abc_built_eq:
  "abc_built =
     (abc_world\<lparr>list_store := [[0, 1, 2], [0, 1, 2]], excepthook := ExceptionHandler\<rparr>,
      Inr ((setupUi 0 ''Select'' ''multiple'')
           \<lparr>groups := [PyStr ''All'', PyStr ''y'', PyStr ''x''],
            data_refined := Some 1, model := Some (ListModel 1),
            comboBox_enabled := True,
            comboBox_items := [PyStr ''All'', PyStr ''y'', PyStr ''x''],
            listView_selectionMode := Some ExtendedSelection,
            listView_model := Some (ListModel 1), doubleClicked_accept := True,
            currentIndexChanged_fill_list := True\<rparr>))"
  by (simp add: abc_built_def abc_world_def model_defs)

lemma abc_filtered_eq:
  "abc_filtered =
     (abc_world\<lparr>list_store := [[0, 1, 2], [0, 1, 2], [0, 1, 2], [0, 2]],
                excepthook := ExceptionHandler\<rparr>,
      (setupUi 0 ''Select'' ''multiple'')
           \<lparr>groups := [PyStr ''All'', PyStr ''y'', PyStr ''x''],
            data_refined := Some 3, model := Some (ListModel 3),
            comboBox_enabled := True,
            comboBox_items := [PyStr ''All'', PyStr ''y'', PyStr ''x''],
            listView_selectionMode := Some ExtendedSelection,
            listView_model := Some (ListModel 3), doubleClicked_accept := True,
            currentIndexChanged_fill_list := True\<rparr>,
      Inr ())"
  by (simp add: abc_filtered_def abc_built_eq) (simp add: abc_world_def model_defs)


lemma capital_built_eq:
  "capital_built =
     (abc_world\<lparr>list_store := [[0, 1, 2], [0, 1, 2]], excepthook := ExceptionHandler\<rparr>,
      Inr ((setupUi 0 ''Select'' ''Single'')
           \<lparr>groups := [PyStr ''All'', PyStr ''y'', PyStr ''x''],
            data_refined := Some 1, model := Some (ListModel 1),
            comboBox_enabled := True,
            comboBox_items := [PyStr ''All'', PyStr ''y'', PyStr ''x''],
            listView_selectionMode := Some ExtendedSelection,
            listView_model := Some (ListModel 1), doubleClicked_accept := True,
            currentIndexChanged_fill_list := True\<rparr>))"
  by (simp add: capital_built_def abc_world_def model_defs)

lemma blank_built_eq:
  "blank_built =
     (abc_world\<lparr>list_store := [[0, 1, 2], [0, 1, 2]], excepthook := ExceptionHandler\<rparr>,
      Inr ((setupUi 0 ''Select'' [])
           \<lparr>groups := [PyStr ''All'', PyStr ''y'', PyStr ''x''],
            data_refined := Some 1, model := Some (ListModel 1),
            comboBox_enabled := True,
            comboBox_items := [PyStr ''All'', PyStr ''y'', PyStr ''x''],
            listView_selectionMode := Some ExtendedSelection,
            listView_model := Some (ListModel 1), doubleClicked_accept := True,
            currentIndexChanged_fill_list := True\<rparr>))"
  by (simp add: blank_built_def abc_world_def model_defs)

lemma mixed_built_eq:
  "mixed_built =
     (mixed_world\<lparr>list_store := [[0, 1], [0, 1]], excepthook := ExceptionHandler\<rparr>,
      Inr ((setupUi 0 ''Select'' ''multiple'')
           \<lparr>groups := [PyStr ''All'', PyStr ''x''],
            data_refined := Some 1, model := Some (ListModel 1),
            comboBox_enabled := True,
            comboBox_items := [PyStr ''All'', PyStr ''x''],
            listView_selectionMode := Some ExtendedSelection,
            listView_model := Some (ListModel 1), doubleClicked_accept := True,
            currentIndexChanged_fill_list := True\<rparr>))"
  by (simp add: mixed_built_def mixed_world_def model_defs)

section \<open>Filtering by group\<close>

text \<open>
  Claim C1. \<^verbatim>\<open>fill_list\<close> over the records \<open>items\<close>, with \<open>grouper\<close> the text the combo
  box shows. When no groups exist, or \<^verbatim>\<open>All\<close> is selected, or every record has a
  \<^verbatim>\<open>group\<close> field, the method returns and the list view shows the Filtered View of the
  spec: all the records in the first two cases, the records of the selected group in their
  order in the third. When groups exist, a group other than \<^verbatim>\<open>All\<close> is selected and some
  record has no \<^verbatim>\<open>group\<close> field, the method raises \<^verbatim>\<open>KeyError\<close> instead of showing
  the records of the group: the loop reads \<^verbatim>\<open>d['group']\<close> of every record, where the
  constructor passes such a record over.
\<close>

theorem fill_list_view:
  assumes "list_at w (data self) = Some items" and "live_items w items"
  shows "(groups self = [] \<or> grouper = ''All'' \<or>
            (\<forall>d\<in>set items. item_field w d ''group'' \<noteq> None) \<longrightarrow>
          (\<exists>w' self' c. fill_list w self grouper = (w', self', Inr ()) \<and>
             data_refined self' = Some c \<and>
             list_at w' c = Some (Filtered_View w (groups self) grouper items) \<and>
             listView_model self' = Some (ListModel c)))
       \<and> (groups self \<noteq> [] \<and> grouper \<noteq> ''All'' \<and>
            (\<exists>d\<in>set items. item_field w d ''group'' = None) \<longrightarrow>
          snd (snd (fill_list w self grouper)) = Inl KeyError)"
proof -
  have good: "\<exists>w' self' c. fill_list w self grouper = (w', self', Inr ()) \<and>
             data_refined self' = Some c \<and>
             list_at w' c = Some (Filtered_View w (groups self) grouper items) \<and>
             listView_model self' = Some (ListModel c)"
    if "groups self = [] \<or> grouper = ''All'' \<or> (\<forall>d\<in>set items. item_field w d ''group'' \<noteq> None)"
  proof -
    have "\<exists>w' self'. fill_list w self grouper = (w', self', Inr ())"
    proof (cases "groups self = [] \<or> grouper = ''All''")
      case True
      from fill_list_all [OF assms(1) True] show ?thesis by blast
    next
      case False
      with that have g: "\<forall>d\<in>set items. item_field w d ''group'' \<noteq> None" by blast
      from False have "groups self \<noteq> []" "grouper \<noteq> ''All''" by auto
      from fill_list_group [OF assms(1) this assms(2) g] show ?thesis by blast
    qed
    then obtain w' self' where f: "fill_list w self grouper = (w', self', Inr ())" by blast
    from fill_list_result [OF f assms(1)] obtain c
      where "list_at w' c = Some (Filtered_View w (groups self) grouper items)"
        and "self' = self\<lparr>data_refined := Some c, model := Some (ListModel c),
                        listView_model := Some (ListModel c)\<rparr>"
      by blast
    then have "data_refined self' = Some c \<and>
             list_at w' c = Some (Filtered_View w (groups self) grouper items) \<and>
             listView_model self' = Some (ListModel c)" by simp
    with f show ?thesis by blast
  qed
  have bad: "snd (snd (fill_list w self grouper)) = Inl KeyError"
    if "groups self \<noteq> []" and "grouper \<noteq> ''All''"
      and "\<exists>d\<in>set items. item_field w d ''group'' = None"
    using assms(1) that(1,2) assms(2) that(3) by (rule fill_list_KeyError)
  from good bad show ?thesis by blast
qed

theorem fill_list_view_witness:
  "list_at (fst mixed_built) (data (projr (snd mixed_built))) = Some [0, 1] \<and>
   live_items (fst mixed_built) [0, 1] \<and>
   groups (projr (snd mixed_built)) = [PyStr ''All'', PyStr ''x''] \<and>
   item_field (fst mixed_built) 1 ''group'' = None \<and>
   snd (snd (fill_list (fst mixed_built) (projr (snd mixed_built)) ''x'')) = Inl KeyError \<and>
   (\<exists>w' self' c. fill_list (fst mixed_built) (projr (snd mixed_built)) ''All'' = (w', self', Inr ()) \<and>
      data_refined self' = Some c \<and> list_at w' c = Some [0, 1] \<and>
      listView_model self' = Some (ListModel c))"
proof -
  have l: "list_at (fst mixed_built) (data (projr (snd mixed_built))) = Some [0, 1]"
    by (simp add: mixed_built_eq setupUi_def list_at_def)
  have v: "live_items (fst mixed_built) [0, 1]"
    by (simp add: mixed_built_eq mixed_world_def live_items_def)
  have g: "groups (projr (snd mixed_built)) = [PyStr ''All'', PyStr ''x'']"
    by (simp add: mixed_built_eq)
  have n: "item_field (fst mixed_built) 1 ''group'' = None"
    by (simp add: mixed_built_eq mixed_world_def item_field_def dict_at_def)
  then have e: "\<exists>d\<in>set [0, 1]. item_field (fst mixed_built) d ''group'' = None" by simp
  have x: "''x'' \<noteq> ''All''" by simp
  have gne: "groups (projr (snd mixed_built)) \<noteq> []" by (simp add: g)
  from fill_list_view [OF l v, of "''x''"] gne e x
  have bad: "snd (snd (fill_list (fst mixed_built) (projr (snd mixed_built)) ''x'')) = Inl KeyError"
    by blast
  have fv: "Filtered_View (fst mixed_built) (groups (projr (snd mixed_built))) ''All'' [0, 1] = [0, 1]"
    by (simp add: Filtered_View_def)
  from fill_list_view [OF l v, of "''All''"]
  have good: "\<exists>w' self' c. fill_list (fst mixed_built) (projr (snd mixed_built)) ''All'' = (w', self', Inr ()) \<and>
      data_refined self' = Some c \<and> list_at w' c = Some [0, 1] \<and>
      listView_model self' = Some (ListModel c)"
    unfolding fv by blast
  from l v g n bad good show ?thesis by blast
qed

section \<open>Getting the selection\<close>

text \<open>
  Claim C3. In single selection mode, with the Filtered View \<open>view\<close> the content of the
  list object \<^verbatim>\<open>self.data_refined\<close>: when no row is highlighted (the current row is
  \<open>-1\<close>) \<^verbatim>\<open>get_selected\<close> returns an empty list, and when row \<open>i\<close> of the view is the
  current row it returns the dictionary object \<open>view ! i\<close>.
\<close>

theorem get_selected_single:
  assumes "selection_mode self = ''single''" and "data_refined self = Some a"
    and "list_at w a = Some view"
  shows "(\<exists>w' e. get_selected w self (- 1) rows = (w', Inr (SelList e)) \<and> list_at w' e = Some [])
       \<and> (\<forall>i<length view. get_selected w self (int i) rows = (w, Inr (SelDict (view ! i))))"
proof -
  have "list_at (w\<lparr>list_store := list_store w @ [[]]\<rparr>) (length (list_store w)) = Some []"
    by (simp add: list_at_def)
  with get_selected_single_none [OF assms(1), of w rows]
  have none: "\<exists>w' e. get_selected w self (- 1) rows = (w', Inr (SelList e)) \<and> list_at w' e = Some []"
    by blast
  have row: "get_selected w self (int i) rows = (w, Inr (SelDict (view ! i)))"
    if "i < length view" for i
    using assms that by (rule get_selected_single_row)
  from none row show ?thesis by blast
qed

theorem get_selected_single_witness:
  "selection_mode (projr (snd two_names_built)) = ''single'' \<and>
   data_refined (projr (snd two_names_built)) = Some 1 \<and>
   list_at (fst two_names_built) 1 = Some [0, 1] \<and>
   (\<exists>w' e. get_selected (fst two_names_built) (projr (snd two_names_built)) (- 1) []
             = (w', Inr (SelList e)) \<and> list_at w' e = Some []) \<and>
   get_selected (fst two_names_built) (projr (snd two_names_built)) 1 []
     = (fst two_names_built, Inr (SelDict 1))"
proof -
  have m: "selection_mode (projr (snd two_names_built)) = ''single''"
    by (simp add: two_names_built_eq setupUi_def)
  have d: "data_refined (projr (snd two_names_built)) = Some 1"
    by (simp add: two_names_built_eq)
  have l: "list_at (fst two_names_built) 1 = Some [0, 1]"
    by (simp add: two_names_built_eq list_at_def)
  from get_selected_single [OF m d l, of "[]"] m d l show ?thesis
    by (auto simp del: One_nat_def)
qed

text \<open>
  Claim C4. In multiple selection mode \<^verbatim>\<open>get_selected\<close> returns a list with the
  dictionary objects at the selected rows of the Filtered View, in the order in which the
  view reports the rows. Each of them is an entry of the Filtered View, each selected row
  contributes one entry, and the list has no duplicates when the selected rows and the
  Filtered View have none. In the scenario of the spec the view of group \<open>x\<close> is
  \<open>[A, C]\<close> and selecting both rows gives \<open>[A, C]\<close>.
\<close>

theorem get_selected_multiple:
  assumes "selection_mode self \<noteq> ''single''" and "data_refined self = Some a"
    and "list_at w a = Some view" and "\<forall>r\<in>set rows. 0 \<le> r \<and> r < int (length view)"
  shows "\<exists>w' sel picked.
           get_selected w self current rows = (w', Inr (SelList sel)) \<and>
           list_at w' sel = Some picked \<and>
           picked = map (\<lambda>r. view ! nat r) rows \<and>
           set picked \<subseteq> set view \<and>
           (distinct rows \<and> distinct view \<longrightarrow> distinct picked)"
proof -
  let ?picked = "map (\<lambda>r. view ! nat r) rows"
  let ?w' = "w\<lparr>list_store := list_store w @ [?picked]\<rparr>"
  have 1: "get_selected w self current rows = (?w', Inr (SelList (length (list_store w))))"
    using assms by (rule get_selected_multiple_rows)
  have 2: "list_at ?w' (length (list_store w)) = Some ?picked"
    by (simp add: list_at_def)
  have 3: "set ?picked \<subseteq> set view"
    using assms(4) by auto
  have 4: "distinct ?picked" if "distinct rows" and "distinct view"
  proof -
    have "inj_on (\<lambda>r. view ! nat r) (set rows)"
    proof (rule inj_onI)
      fix x y assume x: "x \<in> set rows" and y: "y \<in> set rows" and e: "view ! nat x = view ! nat y"
      from x y assms(4) have "nat x < length view" "nat y < length view" "0 \<le> x" "0 \<le> y"
        by auto
      with e that(2) show "x = y" by (simp add: nth_eq_iff_index_eq)
    qed
    with that(1) show ?thesis by (simp add: distinct_map)
  qed
  from 1 2 3 4 show ?thesis by blast
qed

theorem get_selected_multiple_witness:
  "selection_mode (fst (snd abc_filtered)) \<noteq> ''single'' \<and>
   data_refined (fst (snd abc_filtered)) = Some 3 \<and>
   list_at (fst abc_filtered) 3 = Some [0, 2] \<and>
   (\<exists>w' sel. get_selected (fst abc_filtered) (fst (snd abc_filtered)) 0 [0, 1]
               = (w', Inr (SelList sel)) \<and> list_at w' sel = Some [0, 2])"
proof -
  have m: "selection_mode (fst (snd abc_filtered)) \<noteq> ''single''"
    by (simp add: abc_filtered_eq setupUi_def)
  have d: "data_refined (fst (snd abc_filtered)) = Some 3"
    by (simp add: abc_filtered_eq)
  have l: "list_at (fst abc_filtered) 3 = Some [0, 2]"
    by (simp add: abc_filtered_eq list_at_def)
  have r: "\<forall>r\<in>set [0, 1 :: int]. 0 \<le> r \<and> r < int (length [0 :: nat, 2])" by simp
  from get_selected_multiple [OF m d l r, of 0] m d l show ?thesis
    by auto
qed

section \<open>The caller's data\<close>

lemma preserves_refl: "preserves w w"
  by (simp add: preserves_def)

lemma preserves_trans: "preserves w1 w2 \<Longrightarrow> preserves w2 w3 \<Longrightarrow> preserves w1 w3"
  by (auto simp: preserves_def)

lemma preserves_list_at: "preserves w w' \<Longrightarrow> list_at w a = Some xs \<Longrightarrow> list_at w' a = Some xs"
  by (auto simp: preserves_def list_at_def prefix_def nth_append split: if_splits)

lemma preserves_item_field: "preserves w w' \<Longrightarrow> item_field w' d k = item_field w d k"
  by (simp add: preserves_def item_field_def dict_at_def)

text \<open>
  Claim C6. Construction, \<^verbatim>\<open>fill_list\<close> and \<^verbatim>\<open>get_selected\<close> (and the construction
  of the list adapter) leave every list object and every dictionary object that existed
  before the call as it was: the caller's list and the records in it are not written to.
  \<^verbatim>\<open>fill_list\<close> keeps \<^verbatim>\<open>self.data\<close> pointing at the caller's list and makes
  \<^verbatim>\<open>self.data_refined\<close> a list object that did not exist before the call, the shallow
  copy or the newly built filtered list.
\<close>

theorem caller_data_unchanged:
  "preserves w (fst (DialogSelectItems_init tr set_order w a title_arg mode grouper)) \<and>
   preserves w (fst (fill_list w self grouper)) \<and>
   preserves w (fst (get_selected w self current rows)) \<and>
   preserves w (fst (ListModel_init w a)) \<and>
   data (fst (snd (fill_list w self grouper))) = data self \<and>
   (\<forall>items. list_at w (data self) = Some items \<longrightarrow>
      (\<exists>c. data_refined (fst (snd (fill_list w self grouper))) = Some c \<and>
           length (list_store w) \<le> c))"
proof -
  obtain ext1 ms where
    "fst (DialogSelectItems_init tr set_order w a title_arg mode grouper) =
       w\<lparr>list_store := list_store w @ ext1, excepthook := ExceptionHandler, shown := shown w @ ms\<rparr>"
    using init_shape by blast
  then have 1: "preserves w (fst (DialogSelectItems_init tr set_order w a title_arg mode grouper))"
    by (simp add: preserves_def)
  obtain ext2 h where
    "fst (fill_list w self grouper) = w\<lparr>list_store := list_store w @ ext2, excepthook := h\<rparr>"
    using fill_list_shape by blast
  then have 2: "preserves w (fst (fill_list w self grouper))"
    by (simp add: preserves_def)
  obtain ext3 where
    "fst (get_selected w self current rows) = w\<lparr>list_store := list_store w @ ext3\<rparr>"
    using get_selected_shape by blast
  then have 3: "preserves w (fst (get_selected w self current rows))"
    by (simp add: preserves_def)
  have 4: "preserves w (fst (ListModel_init w a))"
    by (simp add: preserves_def ListModel_init_def)
  obtain dr mo lm where
    "fst (snd (fill_list w self grouper)) = self\<lparr>data_refined := dr, model := mo, listView_model := lm\<rparr>"
    using fill_list_self_shape by blast
  then have 5: "data (fst (snd (fill_list w self grouper))) = data self"
    by simp
  from 1 2 3 4 5 fill_list_data_refined show ?thesis by blast
qed

theorem caller_data_unchanged_witness:
  "preserves abc_world (fst abc_built) \<and>
   list_at (fst abc_built) (data (projr (snd abc_built))) = Some [0, 1, 2] \<and>
   preserves (fst abc_built) (fst abc_filtered) \<and>
   data (fst (snd abc_filtered)) = data (projr (snd abc_built)) \<and>
   (\<exists>c. data_refined (fst (snd abc_filtered)) = Some c \<and>
        length (list_store (fst abc_built)) \<le> c) \<and>
   list_at (fst abc_filtered) 0 = Some [0, 1, 2]"
proof -
  have b: "fst abc_built
      = fst (DialogSelectItems_init id id abc_world 0 ''Select'' ''multiple'' ''All'')"
    by (simp add: abc_built_def)
  from caller_data_unchanged [of abc_world id id 0 "''Select''" "''multiple''" "''All''"]
  have 1: "preserves abc_world (fst abc_built)" unfolding b by blast
  have 2: "list_at (fst abc_built) (data (projr (snd abc_built))) = Some [0, 1, 2]"
    by (simp add: abc_built_eq setupUi_def list_at_def)
  from caller_data_unchanged [of "fst abc_built" _ _ _ _ _ "''x''" "projr (snd abc_built)"] 2
  have 3: "preserves (fst abc_built) (fst abc_filtered)"
    and 4: "data (fst (snd abc_filtered)) = data (projr (snd abc_built))"
    and 5: "\<exists>c. data_refined (fst (snd abc_filtered)) = Some c \<and>
              length (list_store (fst abc_built)) \<le> c"
    unfolding abc_filtered_def by blast+
  have 6: "list_at (fst abc_filtered) 0 = Some [0, 1, 2]"
    by (simp add: abc_filtered_eq list_at_def)
  from 1 2 3 4 5 6 show ?thesis by blast
qed

section \<open>The uncaught-exception hook\<close>

lemma sublist_inside: "sublist l m \<Longrightarrow> sublist l (p @ m @ s)"
proof -
  assume "sublist l m"
  then obtain ps ss where "m = ps @ l @ ss" by (auto simp: sublist_def)
  then have "p @ m @ s = (p @ ps) @ l @ (ss @ s)" by simp
  then show ?thesis unfolding sublist_def by blast
qed

lemma sublist_join: "l \<in> set ls \<Longrightarrow> sublist l (join sep ls)"
proof (induction sep ls rule: join.induct)
  case (1 sep)
  then show ?case by simp
next
  case (2 sep x)
  then show ?case by simp
next
  case (3 sep x y ys)
  show ?case
  proof (cases "l = x")
    case True
    then show ?thesis by simp
  next
    case False
    with 3 have "sublist l (join sep (y # ys))" by simp
    from sublist_inside [OF this, of "x @ sep" "[]"] show ?thesis by simp
  qed
qed

lemma sublist_traceback: "l \<in> set tb \<Longrightarrow> sublist l (traceback_text ty v tb)"
proof -
  assume "l \<in> set tb"
  then have "sublist l (join [CHR 0x0A] tb)" by (rule sublist_join)
  from sublist_inside [OF this, of "''Traceback (most recent call last):'' @ [CHR 0x0A]"
      "[CHR 0x0A] @ ty @ '': '' @ v"]
  show ?thesis by (simp add: traceback_text_def)
qed

text \<open>
  Claim C8. Every construction of the dialog, whether it completes or raises, and every
  construction of the list adapter leaves \<^verbatim>\<open>exception_handler\<close> installed in
  \<^verbatim>\<open>sys.excepthook\<close>, whatever was installed before. The handler appends to the error
  log the text that holds every line of the traceback, and opens a critical message box
  (\<^verbatim>\<open>QMessageBox.critical\<close>, Qt's modal error dialog) with the same text.
\<close>

theorem excepthook_installed:
  "excepthook (fst (DialogSelectItems_init tr set_order w a title_arg mode grouper)) = ExceptionHandler \<and>
   excepthook (fst (ListModel_init w a)) = ExceptionHandler \<and>
   logged (exception_handler tr w ty v tb)
     = logged w @ [tr ''Uncaught exception: '' @ traceback_text ty v tb] \<and>
   shown (exception_handler tr w ty v tb)
     = shown w @ [CriticalBox (tr ''Uncaught Exception'') (traceback_text ty v tb)] \<and>
   (\<forall>l\<in>set tb. sublist l (traceback_text ty v tb))"
proof -
  obtain ext ms where
    "fst (DialogSelectItems_init tr set_order w a title_arg mode grouper) =
       w\<lparr>list_store := list_store w @ ext, excepthook := ExceptionHandler, shown := shown w @ ms\<rparr>"
    using init_shape by blast
  then have 1: "excepthook (fst (DialogSelectItems_init tr set_order w a title_arg mode grouper))
      = ExceptionHandler"
    by simp
  have 2: "excepthook (fst (ListModel_init w a)) = ExceptionHandler"
    by (simp add: ListModel_init_def)
  have 3: "logged (exception_handler tr w ty v tb)
     = logged w @ [tr ''Uncaught exception: '' @ traceback_text ty v tb]"
    and 4: "shown (exception_handler tr w ty v tb)
     = shown w @ [CriticalBox (tr ''Uncaught Exception'') (traceback_text ty v tb)]"
    by (simp_all add: exception_handler_def Let_def)
  from 1 2 3 4 sublist_traceback show ?thesis by blast
qed

theorem excepthook_installed_witness:
  "excepthook hooked_world = OtherHook 7 \<and>
   excepthook (fst (DialogSelectItems_init id id hooked_world 0 ''Select'' ''single'' [])) = ExceptionHandler \<and>
   excepthook (fst (ListModel_init hooked_world 0)) = ExceptionHandler \<and>
   sublist ''  File b'' (traceback_text ''KeyError'' ''group'' [''  File a'', ''  File b'']) \<and>
   logged (exception_handler id hooked_world ''KeyError'' ''group'' [''  File a'', ''  File b''])
     = [''Uncaught exception: '' @ traceback_text ''KeyError'' ''group'' [''  File a'', ''  File b'']]"
proof -
  note t = excepthook_installed [of id id hooked_world 0 "''Select''" "''single''" "[]"
      "''KeyError''" "''group''" "[''  File a'', ''  File b'']"]
  have h: "excepthook hooked_world = OtherHook 7" and l: "logged hooked_world = []"
    by (simp_all add: hooked_world_def two_names_def)
  have m: "''  File b'' \<in> set [''  File a'', ''  File b'']" by simp
  from t m have s: "sublist ''  File b'' (traceback_text ''KeyError'' ''group'' [''  File a'', ''  File b''])"
    by blast
  from t h l s show ?thesis by simp
qed

section \<open>The list adapter's contract\<close>

text \<open>
  Claim C7. An adapter built over the list object \<open>a\<close> reports as many rows as that list
  has entries. For every row of the list, the user role returns the dictionary object of the
  row, and the display role returns the value of its \<^verbatim>\<open>name\<close> field wrapped in a
  \<^verbatim>\<open>QVariant\<close>.
\<close>

theorem ListModel_contract:
  assumes "list_at w a = Some view" and "m = snd (ListModel_init w0 a)"
  shows "rowCount w m = Inr (length view) \<and>
         (\<forall>i<length view.
            ListModel_data w m (int i) UserRole = Inr (RowItem (view ! i)) \<and>
            (\<forall>n. item_field w (view ! i) ''name'' = Some n \<longrightarrow>
                 ListModel_data w m (int i) DisplayRole = Inr (QVariant n)))"
proof -
  have m: "model_list m = a" using assms(2) by (simp add: ListModel_init_def)
  have rows: "rowCount w m = Inr (length view)"
    using assms(1) m by (simp add: rowCount_def)
  have item: "row_item w m (int i) = Inr (view ! i)" if "i < length view" for i
    using assms(1) m that by (simp add: row_item_def py_index_nat)
  have user: "ListModel_data w m (int i) UserRole = Inr (RowItem (view ! i))"
    if "i < length view" for i
    using item [OF that] by (simp add: ListModel_data_def UserRole_def DisplayRole_def)
  have display: "ListModel_data w m (int i) DisplayRole = Inr (QVariant n)"
    if "i < length view" and "item_field w (view ! i) ''name'' = Some n" for i n
    using item [OF that(1)] that(2)
    by (auto simp: ListModel_data_def item_field_def split: option.splits)
  from rows user display show ?thesis by blast
qed

theorem ListModel_contract_witness:
  "list_at two_names 0 = Some [0, 1] \<and>
   rowCount two_names (snd (ListModel_init two_names 0)) = Inr 2 \<and>
   ListModel_data two_names (snd (ListModel_init two_names 0)) 1 UserRole = Inr (RowItem 1) \<and>
   item_field two_names 1 ''name'' = Some (PyStr ''B'') \<and>
   ListModel_data two_names (snd (ListModel_init two_names 0)) 1 DisplayRole
     = Inr (QVariant (PyStr ''B''))"
proof -
  have l: "list_at two_names 0 = Some [0, 1]"
    by (simp add: two_names_def list_at_def)
  have n: "item_field two_names 1 ''name'' = Some (PyStr ''B'')"
    by (simp add: two_names_def item_field_def dict_at_def)
  from ListModel_contract [OF l refl, of two_names]
  have c: "rowCount two_names (snd (ListModel_init two_names 0)) = Inr (length [0::nat, 1])"
    and r: "\<forall>i<length [0::nat, 1].
            ListModel_data two_names (snd (ListModel_init two_names 0)) (int i) UserRole
              = Inr (RowItem ([0, 1] ! i)) \<and>
            (\<forall>n. item_field two_names ([0, 1] ! i) ''name'' = Some n \<longrightarrow>
                 ListModel_data two_names (snd (ListModel_init two_names 0)) (int i) DisplayRole
                   = Inr (QVariant n))"
    by blast+
  from r [rule_format, of 1] n l c show ?thesis by simp
qed

section \<open>The checks of the constructor\<close>

text \<open>
  Claim C2. The claim has construction warn and go on when a record lacks the
  \<^verbatim>\<open>name\<close> key. The code reads \<^verbatim>\<open>d['name']\<close> outside the \<^verbatim>\<open>try\<close>: for every
  Record Set with such a record the constructor raises \<^verbatim>\<open>KeyError\<close> at that record. No
  warning has been shown by then, and no dialog exists afterwards.
\<close>

theorem missing_name_raises:
  assumes "list_at w a = Some items" and "live_items w items"
    and "\<exists>d\<in>set items. item_field w d ''name'' = None"
  shows "DialogSelectItems_init tr set_order w a title_arg mode grouper =
           (w\<lparr>excepthook := ExceptionHandler\<rparr>, Inl KeyError)"
proof -
  from assms(3) have "\<not> all_named w items" by (simp add: all_named_iff)
  with assms(1,2) show ?thesis by (rule init_unnamed)
qed

theorem missing_name_raises_witness:
  "list_at nameless_world 0 = Some [0, 1] \<and> live_items nameless_world [0, 1] \<and>
   item_field nameless_world 1 ''name'' = None \<and>
   snd (DialogSelectItems_init id id nameless_world 0 ''Select'' ''single'' []) = Inl KeyError \<and>
   shown (fst (DialogSelectItems_init id id nameless_world 0 ''Select'' ''single'' [])) = []"
proof -
  have l: "list_at nameless_world 0 = Some [0, 1]"
    by (simp add: nameless_world_def list_at_def)
  have v: "live_items nameless_world [0, 1]"
    by (simp add: nameless_world_def live_items_def)
  have n: "item_field nameless_world 1 ''name'' = None"
    by (simp add: nameless_world_def item_field_def dict_at_def)
  then have e: "\<exists>d\<in>set [0, 1]. item_field nameless_world d ''name'' = None" by simp
  have s: "shown nameless_world = []" by (simp add: nameless_world_def)
  from missing_name_raises [OF l v e, of id id "''Select''" "''single''" "[]"] l v n s
  show ?thesis by simp
qed




section \<open>The Group Set\<close>

text \<open>
  Claim C5. After a construction over the records \<open>items\<close>: if at least one record has a
  \<^verbatim>\<open>group\<close> field, \<^verbatim>\<open>self.groups\<close> is the sentinel \<^verbatim>\<open>_("All")\<close> followed by the
  distinct group values, each once, and the combo box is enabled and holds these entries;
  if no record has a \<^verbatim>\<open>group\<close> field, \<^verbatim>\<open>self.groups\<close> is empty, the combo box is
  still disabled and empty, and the list view shows all the records. The order of the
  values after the sentinel is the order in which Python's set iterates, \<open>set_order\<close>,
  of which only that it keeps the elements is assumed.
\<close>

theorem group_set_built:
  assumes "DialogSelectItems_init tr set_order w a title_arg mode grouper = (w', Inr self)"
    and "list_at w a = Some items"
    and "\<forall>xs. distinct xs \<longrightarrow> distinct (set_order xs) \<and> set (set_order xs) = set xs"
  shows "((\<exists>d\<in>set items. item_field w d ''group'' \<noteq> None) \<longrightarrow>
            (\<exists>gs. groups self = PyStr (tr ''All'') # gs \<and> distinct gs \<and>
                  set gs = {v. \<exists>d\<in>set items. item_field w d ''group'' = Some v}) \<and>
            comboBox_enabled self \<and> comboBox_items self = groups self)
       \<and> ((\<forall>d\<in>set items. item_field w d ''group'' = None) \<longrightarrow>
            groups self = [] \<and> \<not> comboBox_enabled self \<and> comboBox_items self = [] \<and>
            (\<exists>c. data_refined self = Some c \<and> list_at w' c = Some items \<and>
                 listView_model self = Some (ListModel c)))"
proof -
  let ?gv = "group_values w items"
  let ?p = "prepared tr set_order a title_arg mode ?gv"
  from init_Inr_result [OF assms(1,2)] obtain c
    where view: "list_at w' c = Some (Filtered_View w (groups ?p) grouper items)"
      and self: "self = ?p\<lparr>data_refined := Some c, model := Some (ListModel c),
                     listView_model := Some (ListModel c),
                     currentIndexChanged_fill_list := True\<rparr>"
    by blast
  have g: "groups self = groups ?p" and e: "comboBox_enabled self = comboBox_enabled ?p"
    and i: "comboBox_items self = comboBox_items ?p"
    and dr: "data_refined self = Some c" and lm: "listView_model self = Some (ListModel c)"
    unfolding self by simp_all
  have some: "(\<exists>gs. groups self = PyStr (tr ''All'') # gs \<and> distinct gs \<and>
                  set gs = {v. \<exists>d\<in>set items. item_field w d ''group'' = Some v}) \<and>
            comboBox_enabled self \<and> comboBox_items self = groups self"
    if "\<exists>d\<in>set items. item_field w d ''group'' \<noteq> None"
  proof -
    from that have ne: "?gv \<noteq> []" by (simp add: group_values_Nil)
    have d: "distinct (set_order (remdups ?gv))" and s: "set (set_order (remdups ?gv)) = set ?gv"
      using assms(3) [rule_format, of "remdups ?gv"] by simp_all
    have "groups self = PyStr (tr ''All'') # set_order (remdups ?gv)"
      using ne by (simp add: g prepared_fields)
    with d s have "\<exists>gs. groups self = PyStr (tr ''All'') # gs \<and> distinct gs \<and>
                  set gs = {v. \<exists>d\<in>set items. item_field w d ''group'' = Some v}"
      by (simp add: set_group_values)
    moreover have "comboBox_enabled self" using ne by (simp add: e prepared_fields)
    moreover have "comboBox_items self = groups self" by (simp add: i g prepared_fields)
    ultimately show ?thesis by blast
  qed
  have none: "groups self = [] \<and> \<not> comboBox_enabled self \<and> comboBox_items self = [] \<and>
            (\<exists>c. data_refined self = Some c \<and> list_at w' c = Some items \<and>
                 listView_model self = Some (ListModel c))"
    if "\<forall>d\<in>set items. item_field w d ''group'' = None"
  proof -
    from that have nil: "?gv = []" by (simp add: group_values_Nil)
    then have gp: "groups ?p = []" by (simp add: prepared_fields)
    with view have "list_at w' c = Some items" by (simp add: Filtered_View_def)
    with dr lm have "\<exists>c. data_refined self = Some c \<and> list_at w' c = Some items \<and>
                 listView_model self = Some (ListModel c)" by blast
    moreover have "groups self = []" using gp g by simp
    moreover have "\<not> comboBox_enabled self" using nil by (simp add: e prepared_fields)
    moreover have "comboBox_items self = []" using gp by (simp add: i prepared_fields)
    ultimately show ?thesis by blast
  qed
  from some none show ?thesis by blast
qed

theorem group_set_built_witness:
  "abc_built = (fst abc_built, Inr (projr (snd abc_built))) \<and>
   list_at abc_world 0 = Some [0, 1, 2] \<and>
   item_field abc_world 0 ''group'' = Some (PyStr ''x'') \<and>
   groups (projr (snd abc_built)) = [PyStr ''All'', PyStr ''y'', PyStr ''x''] \<and>
   comboBox_enabled (projr (snd abc_built)) \<and>
   comboBox_items (projr (snd abc_built)) = groups (projr (snd abc_built)) \<and>
   two_names_built = (fst two_names_built, Inr (projr (snd two_names_built))) \<and>
   list_at two_names 0 = Some [0, 1] \<and>
   item_field two_names 0 ''group'' = None \<and> item_field two_names 1 ''group'' = None \<and>
   groups (projr (snd two_names_built)) = [] \<and>
   \<not> comboBox_enabled (projr (snd two_names_built)) \<and>
   (\<exists>c. data_refined (projr (snd two_names_built)) = Some c \<and>
        list_at (fst two_names_built) c = Some [0, 1] \<and>
        listView_model (projr (snd two_names_built)) = Some (ListModel c))"
proof -
  have ord: "\<forall>xs::pyval list. distinct xs \<longrightarrow> distinct (id xs) \<and> set (id xs) = set xs" by simp
  have b1: "DialogSelectItems_init id id abc_world 0 ''Select'' ''multiple'' ''All''
      = (fst abc_built, Inr (projr (snd abc_built)))"
    unfolding abc_built_def [symmetric] by (simp add: abc_built_eq)
  have l1: "list_at abc_world 0 = Some [0, 1, 2]"
    by (simp add: abc_world_def list_at_def)
  have g1: "item_field abc_world 0 ''group'' = Some (PyStr ''x'')"
    by (simp add: abc_world_def item_field_def dict_at_def)
  then have e1: "\<exists>d\<in>set [0, 1, 2]. item_field abc_world d ''group'' \<noteq> None" by simp
  from group_set_built [OF b1 l1 ord] e1
  have c1: "comboBox_enabled (projr (snd abc_built))"
    "comboBox_items (projr (snd abc_built)) = groups (projr (snd abc_built))"
    by blast+
  have v1: "groups (projr (snd abc_built)) = [PyStr ''All'', PyStr ''y'', PyStr ''x'']"
    by (simp add: abc_built_eq)
  have b2: "DialogSelectItems_init id id two_names 0 ''Select'' ''single'' []
      = (fst two_names_built, Inr (projr (snd two_names_built)))"
    unfolding two_names_built_def [symmetric] by (simp add: two_names_built_eq)
  have l2: "list_at two_names 0 = Some [0, 1]"
    by (simp add: two_names_def list_at_def)
  have g2: "item_field two_names 0 ''group'' = None" "item_field two_names 1 ''group'' = None"
    by (simp_all add: two_names_def item_field_def dict_at_def)
  then have e2: "\<forall>d\<in>set [0, 1]. item_field two_names d ''group'' = None" by simp
  from group_set_built [OF b2 l2 ord] e2
  have c2: "groups (projr (snd two_names_built)) = []"
    "\<not> comboBox_enabled (projr (snd two_names_built))"
    "\<exists>c. data_refined (projr (snd two_names_built)) = Some c \<and>
        list_at (fst two_names_built) c = Some [0, 1] \<and>
        listView_model (projr (snd two_names_built)) = Some (ListModel c)"
    by blast+
  from b1 b2 l1 g1 c1 v1 l2 g2 c2 show ?thesis
    unfolding abc_built_def [symmetric] two_names_built_def [symmetric] by blast
qed

section \<open>The selection mode string\<close>

text \<open>
  Claim C9. A dialog built with a mode string other than exactly \<^verbatim>\<open>single\<close> has its list
  view in extended selection; its \<^verbatim>\<open>get_selected\<close> never returns a single dictionary,
  and for rows of the current view it returns the list of their records. A dialog built
  with \<^verbatim>\<open>single\<close> has its list view in single selection and \<^verbatim>\<open>get_selected\<close> returns
  the dictionary of the current row.
\<close>

theorem selection_mode_strings:
  assumes "DialogSelectItems_init tr set_order w a title_arg mode grouper = (w', Inr self)"
  shows "(mode = ''single'' \<longrightarrow>
            listView_selectionMode self = Some SingleSelection \<and>
            (\<exists>c view. data_refined self = Some c \<and> list_at w' c = Some view \<and>
               (\<forall>i<length view. \<forall>rows.
                  get_selected w' self (int i) rows = (w', Inr (SelDict (view ! i))))))
       \<and> (mode \<noteq> ''single'' \<longrightarrow>
            listView_selectionMode self = Some ExtendedSelection \<and>
            (\<forall>w2 current rows d. snd (get_selected w2 self current rows) \<noteq> Inr (SelDict d)) \<and>
            (\<exists>c view. data_refined self = Some c \<and> list_at w' c = Some view \<and>
               (\<forall>current rows. (\<forall>r\<in>set rows. 0 \<le> r \<and> r < int (length view)) \<longrightarrow>
                  (\<exists>w3 sel. get_selected w' self current rows = (w3, Inr (SelList sel)) \<and>
                            list_at w3 sel = Some (map (\<lambda>r. view ! nat r) rows)))))"
proof -
  from init_Inr [OF assms] obtain items where items: "list_at w a = Some items" by blast
  let ?p = "prepared tr set_order a title_arg mode (group_values w items)"
  from init_Inr_result [OF assms items] obtain c
    where view: "list_at w' c = Some (Filtered_View w (groups ?p) grouper items)"
      and self: "self = ?p\<lparr>data_refined := Some c, model := Some (ListModel c),
                     listView_model := Some (ListModel c),
                     currentIndexChanged_fill_list := True\<rparr>"
    by blast
  let ?view = "Filtered_View w (groups ?p) grouper items"
  have sm: "selection_mode self = mode"
    and lv: "listView_selectionMode self
               = Some (if mode = ''single'' then SingleSelection else ExtendedSelection)"
    and dr: "data_refined self = Some c"
    unfolding self by (simp_all add: prepared_fields)
  have single: "listView_selectionMode self = Some SingleSelection \<and>
            (\<exists>c view. data_refined self = Some c \<and> list_at w' c = Some view \<and>
               (\<forall>i<length view. \<forall>rows.
                  get_selected w' self (int i) rows = (w', Inr (SelDict (view ! i)))))"
    if "mode = ''single''"
  proof -
    from that sm have m: "selection_mode self = ''single''" by simp
    have "get_selected w' self (int i) rows = (w', Inr (SelDict (?view ! i)))"
      if "i < length ?view" for i rows
      using m dr view that by (rule get_selected_single_row)
    with dr view lv \<open>mode = ''single''\<close> show ?thesis by auto
  qed
  have multi: "listView_selectionMode self = Some ExtendedSelection \<and>
            (\<forall>w2 current rows d. snd (get_selected w2 self current rows) \<noteq> Inr (SelDict d)) \<and>
            (\<exists>c view. data_refined self = Some c \<and> list_at w' c = Some view \<and>
               (\<forall>current rows. (\<forall>r\<in>set rows. 0 \<le> r \<and> r < int (length view)) \<longrightarrow>
                  (\<exists>w3 sel. get_selected w' self current rows = (w3, Inr (SelList sel)) \<and>
                            list_at w3 sel = Some (map (\<lambda>r. view ! nat r) rows))))"
    if "mode \<noteq> ''single''"
  proof -
    from that sm have m: "selection_mode self \<noteq> ''single''" by simp
    have never: "snd (get_selected w2 self current rows) \<noteq> Inr (SelDict d)" for w2 current rows d
      using m by (rule get_selected_never_dict)
    have rows: "\<exists>w3 sel. get_selected w' self current rows = (w3, Inr (SelList sel)) \<and>
                            list_at w3 sel = Some (map (\<lambda>r. ?view ! nat r) rows)"
      if "\<forall>r\<in>set rows. 0 \<le> r \<and> r < int (length ?view)" for current rows
    proof -
      have "list_at (w'\<lparr>list_store := list_store w' @ [map (\<lambda>r. ?view ! nat r) rows]\<rparr>)
              (length (list_store w')) = Some (map (\<lambda>r. ?view ! nat r) rows)"
        by (simp add: list_at_def)
      with get_selected_multiple_rows [OF m dr view that, of current] show ?thesis by blast
    qed
    from lv that have "listView_selectionMode self = Some ExtendedSelection" by simp
    with never rows dr view show ?thesis by blast
  qed
  from single multi show ?thesis by blast
qed


theorem selection_mode_strings_witness:
  "capital_built = (fst capital_built, Inr (projr (snd capital_built))) \<and>
   listView_selectionMode (projr (snd capital_built)) = Some ExtendedSelection \<and>
   (\<exists>w3 sel. get_selected (fst capital_built) (projr (snd capital_built)) 0 [2, 0]
               = (w3, Inr (SelList sel)) \<and> list_at w3 sel = Some [2, 0]) \<and>
   blank_built = (fst blank_built, Inr (projr (snd blank_built))) \<and>
   listView_selectionMode (projr (snd blank_built)) = Some ExtendedSelection \<and>
   two_names_built = (fst two_names_built, Inr (projr (snd two_names_built))) \<and>
   listView_selectionMode (projr (snd two_names_built)) = Some SingleSelection \<and>
   get_selected (fst two_names_built) (projr (snd two_names_built)) 1 [2, 0]
     = (fst two_names_built, Inr (SelDict 1))"
proof -
  have b1: "DialogSelectItems_init id id abc_world 0 ''Select'' ''Single'' ''All''
      = (fst capital_built, Inr (projr (snd capital_built)))"
    unfolding capital_built_def [symmetric] by (simp add: capital_built_eq)
  have ne1: "''Single'' \<noteq> ''single''" by simp
  from selection_mode_strings [OF b1] ne1
  have m1: "listView_selectionMode (projr (snd capital_built)) = Some ExtendedSelection"
    and "\<exists>c view. data_refined (projr (snd capital_built)) = Some c \<and>
           list_at (fst capital_built) c = Some view \<and>
           (\<forall>current rows. (\<forall>r\<in>set rows. 0 \<le> r \<and> r < int (length view)) \<longrightarrow>
              (\<exists>w3 sel. get_selected (fst capital_built) (projr (snd capital_built)) current rows
                          = (w3, Inr (SelList sel)) \<and>
                        list_at w3 sel = Some (map (\<lambda>r. view ! nat r) rows)))"
    by blast+
  then obtain c view
    where c: "data_refined (projr (snd capital_built)) = Some c"
      and v: "list_at (fst capital_built) c = Some view"
      and r: "\<forall>current rows. (\<forall>r\<in>set rows. 0 \<le> r \<and> r < int (length view)) \<longrightarrow>
              (\<exists>w3 sel. get_selected (fst capital_built) (projr (snd capital_built)) current rows
                          = (w3, Inr (SelList sel)) \<and>
                        list_at w3 sel = Some (map (\<lambda>r. view ! nat r) rows))"
    by blast
  from c have "c = 1" by (simp add: capital_built_eq)
  with v have view: "view = [0, 1, 2]" by (simp add: capital_built_eq list_at_def)
  have rs: "\<forall>r\<in>set [2, 0 :: int]. 0 \<le> r \<and> r < int (length view)" unfolding view by simp
  from r have "(\<forall>r\<in>set [2, 0 :: int]. 0 \<le> r \<and> r < int (length view)) \<longrightarrow>
     (\<exists>w3 sel. get_selected (fst capital_built) (projr (snd capital_built)) 0 [2, 0]
                 = (w3, Inr (SelList sel)) \<and>
               list_at w3 sel = Some (map (\<lambda>r. view ! nat r) [2, 0]))"
    by blast
  with rs have "\<exists>w3 sel. get_selected (fst capital_built) (projr (snd capital_built)) 0 [2, 0]
                 = (w3, Inr (SelList sel)) \<and>
               list_at w3 sel = Some (map (\<lambda>r. view ! nat r) [2, 0])"
    by blast
  then have g1: "\<exists>w3 sel. get_selected (fst capital_built) (projr (snd capital_built)) 0 [2, 0]
               = (w3, Inr (SelList sel)) \<and> list_at w3 sel = Some [2, 0]"
    unfolding view by simp
  have b2: "DialogSelectItems_init id id abc_world 0 ''Select'' [] ''All''
      = (fst blank_built, Inr (projr (snd blank_built)))"
    unfolding blank_built_def [symmetric] by (simp add: blank_built_eq)
  have ne2: "[] \<noteq> ''single''" by simp
  from selection_mode_strings [OF b2] ne2
  have m2: "listView_selectionMode (projr (snd blank_built)) = Some ExtendedSelection"
    by blast
  have b3: "DialogSelectItems_init id id two_names 0 ''Select'' ''single'' []
      = (fst two_names_built, Inr (projr (snd two_names_built)))"
    unfolding two_names_built_def [symmetric] by (simp add: two_names_built_eq)
  from selection_mode_strings [OF b3]
  have m3: "listView_selectionMode (projr (snd two_names_built)) = Some SingleSelection"
    and "\<exists>c view. data_refined (projr (snd two_names_built)) = Some c \<and>
           list_at (fst two_names_built) c = Some view \<and>
           (\<forall>i<length view. \<forall>rows.
              get_selected (fst two_names_built) (projr (snd two_names_built)) (int i) rows
                = (fst two_names_built, Inr (SelDict (view ! i))))"
    by blast+
  then obtain c' view'
    where c': "data_refined (projr (snd two_names_built)) = Some c'"
      and v': "list_at (fst two_names_built) c' = Some view'"
      and r': "\<forall>i<length view'. \<forall>rows.
              get_selected (fst two_names_built) (projr (snd two_names_built)) (int i) rows
                = (fst two_names_built, Inr (SelDict (view' ! i)))"
    by blast
  from c' have "c' = 1" by (simp add: two_names_built_eq)
  with v' have view': "view' = [0, 1]" by (simp add: two_names_built_eq list_at_def)
  from r' [rule_format, of 1 "[2, 0]"]
  have g3: "get_selected (fst two_names_built) (projr (snd two_names_built)) 1 [2, 0]
     = (fst two_names_built, Inr (SelDict 1))"
    unfolding view' by simp
  from b1 m1 g1 b2 m2 b3 m3 g3 show ?thesis
    unfolding capital_built_def [symmetric] blank_built_def [symmetric]
      two_names_built_def [symmetric]
    by blast
qed

end
